theory Spec2Isabelle
  imports Complex_Main "HOL-Library.Multiset" "HOL-Library.AList"
begin

section \<open>Timeline engine (\<^verbatim>\<open>src/js/timeline.js\<close>)\<close>

text \<open>
  A timeline is the \<^verbatim>\<open>timeline\<close> array of a cooking process document. Its items are
  the two variants of \<^verbatim>\<open>TimelineItemSchema\<close>: an action (\<^verbatim>\<open>type: 'action'\<close>) or a
  parallel block (\<^verbatim>\<open>type: 'parallel'\<close>) holding a list of actions. Minutes are JavaScript
  numbers; they are modelled as exact reals, so the rounding of the one floating-point
  addition in \<^verbatim>\<open>getCurrentStep\<close> is not represented. The optional field
  \<^verbatim>\<open>durationMinutes\<close> is an option (\<open>None\<close> when the property is missing).
\<close>

record action =
  action_id :: string
  startMinute :: real
  durationMinutes :: "real option"
  isCriticalPath :: bool

datatype item =
    Action action
  | Parallel string real "action list"

text \<open>\<^verbatim>\<open>item.startMinute\<close>, a property both variants have.\<close>

fun item_startMinute :: "item \<Rightarrow> real" where
  "item_startMinute (Action a) = startMinute a"
| "item_startMinute (Parallel _ s _) = s"

text \<open>\<^verbatim>\<open>item.durationMinutes || 0\<close>: a missing duration, like the falsy duration 0, gives 0.\<close>

fun or_zero :: "real option \<Rightarrow> real" where
  "or_zero None = 0"
| "or_zero (Some d) = (if d = 0 then 0 else d)"

text \<open>
  \<^verbatim>\<open>Array.prototype.sort(compare)\<close> is a function of the platform, not of the repository.
  ECMAScript requires it to be stable, and for a comparator that is consistent (as
  \<^verbatim>\<open>(a, b) => a.startMinute - b.startMinute\<close> is) the result is then determined: the
  elements in ascending order of the comparator, equal ones in their original order.
  A stable insertion sort computes that list: an element is put before the first element
  it does not compare greater than.
\<close>

fun Array_insert :: "('a \<Rightarrow> 'a \<Rightarrow> real) \<Rightarrow> 'a \<Rightarrow> 'a list \<Rightarrow> 'a list" where
  "Array_insert compare x [] = [x]"
| "Array_insert compare x (y # ys) =
     (if compare x y \<le> 0 then x # y # ys else y # Array_insert compare x ys)"

fun Array_sort :: "('a \<Rightarrow> 'a \<Rightarrow> real) \<Rightarrow> 'a list \<Rightarrow> 'a list" where
  "Array_sort compare [] = []"
| "Array_sort compare (x # xs) = Array_insert compare x (Array_sort compare xs)"

text \<open>\<^verbatim>\<open>TimelineManager.getUpcomingSteps(timeline, elapsedMinutes)\<close>\<close>

definition getUpcomingSteps :: "item list \<Rightarrow> real \<Rightarrow> item list" where
  "getUpcomingSteps timeline elapsedMinutes =
     Array_sort (\<lambda>a b. item_startMinute a - item_startMinute b)
       (filter (\<lambda>item. case item of
                   Action a \<Rightarrow> startMinute a > elapsedMinutes
                 | Parallel _ s _ \<Rightarrow> s > elapsedMinutes)
          timeline)"

text \<open>\<^verbatim>\<open>TimelineManager.getNextStep(timeline, elapsedMinutes)\<close>\<close>

definition getNextStep :: "item list \<Rightarrow> real \<Rightarrow> item option" where
  "getNextStep timeline elapsedMinutes =
     (let upcoming = getUpcomingSteps timeline elapsedMinutes
      in if length upcoming > 0 then Some (hd upcoming) else None)"

text \<open>
  \<^verbatim>\<open>TimelineManager.getCurrentStep(timeline, elapsedMinutes)\<close>: the \<^verbatim>\<open>for ... of\<close> loop
  with its variable \<^verbatim>\<open>current\<close>, which starts as \<^verbatim>\<open>null\<close>.
\<close>

fun getCurrentStep_loop :: "item list \<Rightarrow> real \<Rightarrow> action option \<Rightarrow> action option" where
  "getCurrentStep_loop [] elapsedMinutes current = current"
| "getCurrentStep_loop (item # rest) elapsedMinutes current =
     getCurrentStep_loop rest elapsedMinutes
       (case item of
          Action a \<Rightarrow>
            if startMinute a \<le> elapsedMinutes then
              (let endMinute = startMinute a + or_zero (durationMinutes a)
               in if endMinute > elapsedMinutes then Some a else current)
            else current
        | Parallel _ _ _ \<Rightarrow> current)"

definition getCurrentStep :: "item list \<Rightarrow> real \<Rightarrow> action option" where
  "getCurrentStep timeline elapsedMinutes = getCurrentStep_loop timeline elapsedMinutes None"

subsection \<open>The specification's wording of the current step\<close>

text \<open>
  The top-level actions of a timeline, in timeline order; the actions inside a parallel
  block are not among them.
\<close>

fun top_level_actions :: "item list \<Rightarrow> action list" where
  "top_level_actions [] = []"
| "top_level_actions (Action a # rest) = a # top_level_actions rest"
| "top_level_actions (Parallel _ _ _ # rest) = top_level_actions rest"

text \<open>
  The window \<open>[startMinute, startMinute + durationMinutes)\<close> of an action, the duration
  defaulting to 0, contains the elapsed time.
\<close>

definition window_contains :: "action \<Rightarrow> real \<Rightarrow> bool" where
  "window_contains a e =
     (startMinute a \<le> e \<and>
      e < startMinute a + (case durationMinutes a of None \<Rightarrow> 0 | Some d \<Rightarrow> d))"

definition currentStep_spec :: "item list \<Rightarrow> real \<Rightarrow> action option" where
  "currentStep_spec T e =
     (let containing = filter (\<lambda>a. window_contains a e) (top_level_actions T)
      in if containing = [] then None else Some (last containing))"

section \<open>Timer state store (\<^verbatim>\<open>TimerManager\<close> in \<^verbatim>\<open>js/timer.js\<close>)\<close>

text \<open>
  The two exceptions the store can raise: \<^verbatim>\<open>JSON.parse\<close> throws a \<^verbatim>\<open>SyntaxError\<close> on text
  that is not JSON, and reading, writing or deleting a property of \<^verbatim>\<open>null\<close> throws a
  \<^verbatim>\<open>TypeError\<close>. A function that can throw returns a sum, \<open>Inl\<close> the exception.
\<close>

datatype js_error = SyntaxError | TypeError

text \<open>
  A property of a stored timer state is missing, \<^verbatim>\<open>null\<close>, or a value of the type the
  code writes into it. Timestamps and durations in milliseconds are integers
  (\<^verbatim>\<open>Date.now()\<close> is a whole number far below \<open>2^53\<close>, so the double arithmetic on it is
  exact).
\<close>

datatype 'a field = Absent | Null | Val 'a

record TimerState =
  startTime :: "int field"
  servingSize :: "int field"
  currentStepId :: "string field"
  isPaused :: "bool field"
  pausedAt :: "int field"

text \<open>JavaScript truthiness: a missing property, \<^verbatim>\<open>null\<close>, \<^verbatim>\<open>0\<close> and \<^verbatim>\<open>false\<close> are falsy.\<close>

fun truthy_number :: "int field \<Rightarrow> bool" where
  "truthy_number (Val n) = (n \<noteq> 0)"
| "truthy_number Absent = False"
| "truthy_number Null = False"

fun truthy_boolean :: "bool field \<Rightarrow> bool" where
  "truthy_boolean (Val b) = b"
| "truthy_boolean Absent = False"
| "truthy_boolean Null = False"

text \<open>
  Arithmetic converts its operands to numbers: a missing property (\<^verbatim>\<open>undefined\<close>) becomes
  \<^verbatim>\<open>NaN\<close>, here \<open>None\<close>, and \<^verbatim>\<open>null\<close> becomes 0. \<^verbatim>\<open>NaN\<close> is contagious, and
  \<^verbatim>\<open>JSON.stringify\<close> writes it as \<^verbatim>\<open>null\<close>.
\<close>

fun ToNumber :: "int field \<Rightarrow> int option" where
  "ToNumber Absent = None"
| "ToNumber Null = Some 0"
| "ToNumber (Val n) = Some n"

fun number_minus :: "int option \<Rightarrow> int option \<Rightarrow> int option" where
  "number_minus (Some a) (Some b) = Some (a - b)"
| "number_minus _ _ = None"

fun number_plus :: "int option \<Rightarrow> int option \<Rightarrow> int option" where
  "number_plus (Some a) (Some b) = Some (a + b)"
| "number_plus _ _ = None"

fun stringified_number :: "int option \<Rightarrow> int field" where
  "stringified_number None = Null"
| "stringified_number (Some n) = Val n"

text \<open>
  The value stored under the key \<^verbatim>\<open>'cookingTimer'\<close> is a string, which the code only
  tests for emptiness, reads with \<^verbatim>\<open>JSON.parse\<close> and writes with \<^verbatim>\<open>JSON.stringify\<close>.
  Both are functions of the platform. The string is represented by what they make of it:
  it is empty, or it is not JSON (\<open>Malformed\<close>: any such text, for instance a lone
  \<^verbatim>\<open>{\<close>), or it is the JSON text of a value. The values covered are \<^verbatim>\<open>null\<close> and an
  object that maps recipe slugs to timer states, kept as an association list in property
  order; the properties are the object's own ones (a slug is taken not to be the name of
  a property of \<^verbatim>\<open>Object.prototype\<close>).
\<close>

datatype json = JNull | JObject "(string \<times> TimerState) list"

datatype stored_text = Empty | Malformed | Stringified json

fun JSON_parse :: "stored_text \<Rightarrow> js_error + json" where
  "JSON_parse Empty = Inl SyntaxError"
| "JSON_parse Malformed = Inl SyntaxError"
| "JSON_parse (Stringified v) = Inr v"

definition JSON_stringify :: "json \<Rightarrow> stored_text" where
  "JSON_stringify v = Stringified v"

text \<open>
  \<^verbatim>\<open>localStorage.getItem(this.storageKey)\<close> is \<^verbatim>\<open>null\<close> (\<open>None\<close>) when the key was never
  set. \<^verbatim>\<open>!data\<close> holds for \<^verbatim>\<open>null\<close> and for the empty string.
\<close>

type_synonym storage = "stored_text option"

text \<open>\<^verbatim>\<open>TimerManager.getState(recipeSlug)\<close>; \<^verbatim>\<open>null\<close> is \<open>None\<close>.\<close>

definition getState :: "storage \<Rightarrow> string \<Rightarrow> js_error + TimerState option" where
  "getState localStorage recipeSlug =
     (case localStorage of
        None \<Rightarrow> Inr None
      | Some data \<Rightarrow>
          if data = Empty then Inr None
          else case JSON_parse data of
                 Inl e \<Rightarrow> Inl e
               | Inr JNull \<Rightarrow> Inl TypeError
               | Inr (JObject parsed) \<Rightarrow> Inr (map_of parsed recipeSlug))"

text \<open>
  \<^verbatim>\<open>TimerManager.setState(recipeSlug, state)\<close> returns the new content of the storage.
  \<^verbatim>\<open>parsed[recipeSlug] = state\<close> replaces the property where it is, or appends it.
\<close>

definition setState :: "storage \<Rightarrow> string \<Rightarrow> TimerState \<Rightarrow> js_error + storage" where
  "setState localStorage recipeSlug state =
     (case (case localStorage of
              None \<Rightarrow> Inr (JObject [])
            | Some data \<Rightarrow> if data = Empty then Inr (JObject []) else JSON_parse data) of
        Inl e \<Rightarrow> Inl e
      | Inr JNull \<Rightarrow> Inl TypeError
      | Inr (JObject parsed) \<Rightarrow>
          Inr (Some (JSON_stringify (JObject (AList.update recipeSlug state parsed)))))"

text \<open>\<^verbatim>\<open>TimerManager.clearState(recipeSlug)\<close> returns the new content of the storage.\<close>

definition clearState :: "storage \<Rightarrow> string \<Rightarrow> js_error + storage" where
  "clearState localStorage recipeSlug =
     (case localStorage of
        None \<Rightarrow> Inr localStorage
      | Some data \<Rightarrow>
          if data = Empty then Inr localStorage
          else case JSON_parse data of
                 Inl e \<Rightarrow> Inl e
               | Inr JNull \<Rightarrow> Inl TypeError
               | Inr (JObject parsed) \<Rightarrow>
                   Inr (Some (JSON_stringify (JObject (AList.delete recipeSlug parsed)))))"

text \<open>
  \<^verbatim>\<open>TimerManager.getElapsedMs(recipeSlug)\<close>; \<open>now\<close> is what \<^verbatim>\<open>Date.now()\<close> returns at the
  call. The result is a JavaScript number, \<open>None\<close> standing for \<^verbatim>\<open>NaN\<close>.
\<close>

definition getElapsedMs :: "storage \<Rightarrow> string \<Rightarrow> int \<Rightarrow> js_error + int option" where
  "getElapsedMs localStorage recipeSlug now =
     (case getState localStorage recipeSlug of
        Inl e \<Rightarrow> Inl e
      | Inr None \<Rightarrow> Inr (Some 0)
      | Inr (Some state) \<Rightarrow>
          if \<not> truthy_number (startTime state) then Inr (Some 0)
          else if truthy_boolean (isPaused state) \<and> truthy_number (pausedAt state)
          then Inr (number_minus (ToNumber (pausedAt state)) (ToNumber (startTime state)))
          else Inr (number_minus (Some now) (ToNumber (startTime state))))"

text \<open>The property \<^verbatim>\<open>pausedAt\<close> is set: it is there and is not \<^verbatim>\<open>null\<close>.\<close>

definition pausedAt_is_set :: "TimerState \<Rightarrow> bool" where
  "pausedAt_is_set s = (case pausedAt s of Val t \<Rightarrow> True | Null \<Rightarrow> False | Absent \<Rightarrow> False)"

text \<open>
  The pause fields of what \<^verbatim>\<open>getState\<close> returns agree: there is no state, or
  \<^verbatim>\<open>pausedAt\<close> is set exactly when \<^verbatim>\<open>isPaused\<close> is \<^verbatim>\<open>true\<close>.
\<close>

definition pause_fields_agree :: "TimerState option \<Rightarrow> bool" where
  "pause_fields_agree x =
     (case x of None \<Rightarrow> True
      | Some s \<Rightarrow> (pausedAt_is_set s \<longleftrightarrow> isPaused s = Val True))"

section \<open>Timer controls (\<^verbatim>\<open>js/timer.js\<close>)\<close>

text \<open>
  The controls work on the storage and on the global \<^verbatim>\<open>currentRecipeSlug\<close>, which
  \<^verbatim>\<open>initTimer\<close> sets; \<^verbatim>\<open>!currentRecipeSlug\<close> holds for \<^verbatim>\<open>null\<close> (\<open>None\<close>) and for the
  empty string.
  Each control writes the storage before it touches the page, so the buttons, the
  interval and the step cards are left out here. An exception leaves the storage as it
  was.
\<close>

record page =
  localStorage :: storage
  currentRecipeSlug :: "string option"

text \<open>\<^verbatim>\<open>!currentRecipeSlug\<close>\<close>

fun no_slug :: "string option \<Rightarrow> bool" where
  "no_slug None = True"
| "no_slug (Some slug) = (slug = [])"

text \<open>The slug the controls use once \<^verbatim>\<open>!currentRecipeSlug\<close> has failed.\<close>

fun slug_of :: "string option \<Rightarrow> string" where
  "slug_of None = []"
| "slug_of (Some slug) = slug"

text \<open>
  \<^verbatim>\<open>startTimer()\<close>; \<open>selected\<close> is what \<^verbatim>\<open>getSelectedServingSize()\<close> returns, \<open>None\<close> for the
  \<^verbatim>\<open>NaN\<close> of a \<^verbatim>\<open>parseInt\<close> that finds no number.
\<close>

definition startTimer :: "page \<Rightarrow> int \<Rightarrow> int option \<Rightarrow> js_error + page" where
  "startTimer p now selected =
     (if no_slug (currentRecipeSlug p) then Inr p
      else
        let state = \<lparr> startTime = Val now,
                      servingSize = stringified_number selected,
                      currentStepId = Null,
                      isPaused = Val False,
                      pausedAt = Null \<rparr>
        in case setState (localStorage p) (slug_of (currentRecipeSlug p)) state of
             Inl e \<Rightarrow> Inl e
           | Inr stored \<Rightarrow> Inr (p\<lparr>localStorage := stored\<rparr>))"

text \<open>\<^verbatim>\<open>pauseTimer()\<close>\<close>

definition pauseTimer :: "page \<Rightarrow> int \<Rightarrow> js_error + page" where
  "pauseTimer p now =
     (if no_slug (currentRecipeSlug p) then Inr p
      else case getState (localStorage p) (slug_of (currentRecipeSlug p)) of
             Inl e \<Rightarrow> Inl e
           | Inr None \<Rightarrow> Inr p
           | Inr (Some state) \<Rightarrow>
               (case setState (localStorage p) (slug_of (currentRecipeSlug p))
                       (state\<lparr>isPaused := Val True, pausedAt := Val now\<rparr>) of
                  Inl e \<Rightarrow> Inl e
                | Inr stored \<Rightarrow> Inr (p\<lparr>localStorage := stored\<rparr>)))"

text \<open>\<^verbatim>\<open>resumeTimer()\<close>\<close>

definition resumeTimer :: "page \<Rightarrow> int \<Rightarrow> js_error + page" where
  "resumeTimer p now =
     (if no_slug (currentRecipeSlug p) then Inr p
      else case getState (localStorage p) (slug_of (currentRecipeSlug p)) of
             Inl e \<Rightarrow> Inl e
           | Inr None \<Rightarrow> Inr p
           | Inr (Some state) \<Rightarrow>
               if \<not> truthy_boolean (isPaused state) then Inr p
               else
                 let pauseDuration = number_minus (Some now) (ToNumber (pausedAt state));
                     started = number_plus (ToNumber (startTime state)) pauseDuration
                 in case setState (localStorage p) (slug_of (currentRecipeSlug p))
                           (state\<lparr>startTime := stringified_number started,
                                   isPaused := Val False,
                                   pausedAt := Null\<rparr>) of
                      Inl e \<Rightarrow> Inl e
                    | Inr stored \<Rightarrow> Inr (p\<lparr>localStorage := stored\<rparr>))"

text \<open>\<^verbatim>\<open>resetTimer()\<close>; \<open>confirmed\<close> is the answer to the \<^verbatim>\<open>confirm\<close> dialogue.\<close>

definition resetTimer :: "page \<Rightarrow> bool \<Rightarrow> js_error + page" where
  "resetTimer p confirmed =
     (if no_slug (currentRecipeSlug p) then Inr p
      else if confirmed then
        (case clearState (localStorage p) (slug_of (currentRecipeSlug p)) of
           Inl e \<Rightarrow> Inl e
         | Inr stored \<Rightarrow> Inr (p\<lparr>localStorage := stored\<rparr>))
      else Inr p)"

text \<open>
  A session is a sequence of calls of the controls, each with the clock reading (and the
  serving size or the answer) it meets.
\<close>

datatype control = Start int "int option" | Pause int | Resume int | Reset bool

fun control_call :: "page \<Rightarrow> control \<Rightarrow> js_error + page" where
  "control_call p (Start now selected) = startTimer p now selected"
| "control_call p (Pause now) = pauseTimer p now"
| "control_call p (Resume now) = resumeTimer p now"
| "control_call p (Reset confirmed) = resetTimer p confirmed"

fun session :: "page \<Rightarrow> control list \<Rightarrow> js_error + page" where
  "session p [] = Inr p"
| "session p (c # cs) =
     (case control_call p c of Inl e \<Rightarrow> Inl e | Inr p' \<Rightarrow> session p' cs)"

section \<open>Display tick (\<^verbatim>\<open>updateStepCountdowns\<close> and \<^verbatim>\<open>highlightNextStep\<close>)\<close>

text \<open>
  The repository holds two copies of \<^verbatim>\<open>timer.js\<close> with the same store and controls.
  They differ in the page they drive. The copy \<^verbatim>\<open>src/js/timer.js\<close>, which the site
  configuration passes through to the built site, works on elements of class
  \<^verbatim>\<open>step-card\<close>: it dims a step that has begun and puts a border on the next one. The
  other copy (\<^verbatim>\<open>unnamed/part_002\<close> of the sources) works on elements of class
  \<^verbatim>\<open>step-ticket\<close> and marks them as waiting, done, next and firing. Both are modelled,
  \<^verbatim>\<open>src/js/timer.js\<close> under the names of its functions and the other copy with the
  suffix \<open>_ticket\<close>.

  A step element carries the data attributes \<^verbatim>\<open>data-start-minute\<close> and
  \<^verbatim>\<open>data-duration-minutes\<close> (the latter may be missing), may contain a countdown element,
  and has a class list. The list of elements is the one \<^verbatim>\<open>querySelectorAll\<close> returns, in
  document order; a reference to an element is its position in that list. The text and
  the classes of the countdown element are left out.
\<close>

record step_card =
  dataset_startMinute :: real
  dataset_durationMinutes :: "real option"
  has_countdown :: bool
  classList :: "string set"

text \<open>
  \<^verbatim>\<open>minRemaining\<close> starts as \<^verbatim>\<open>Infinity\<close>, here \<open>None\<close>:
  \<^verbatim>\<open>remaining < minRemaining\<close> and \<^verbatim>\<open>minRemaining < 0.5\<close>.
\<close>

fun below_minimum :: "real \<Rightarrow> real option \<Rightarrow> bool" where
  "below_minimum r None = True"
| "below_minimum r (Some m) = (r < m)"

fun minimum_below :: "real option \<Rightarrow> real \<Rightarrow> bool" where
  "minimum_below None r = False"
| "minimum_below (Some m) r = (m < r)"

subsection \<open>The copy \<^verbatim>\<open>src/js/timer.js\<close>\<close>

text \<open>
  The \<^verbatim>\<open>forEach\<close> loop of \<^verbatim>\<open>highlightNextStep(elapsedMinutes)\<close> over the step cards from
  position \<open>i\<close> on, with the variables \<^verbatim>\<open>nextStep\<close> and \<^verbatim>\<open>minRemaining\<close>; it returns
  the cards as the loop leaves them and the final values of both variables.
\<close>

fun highlightNextStep_forEach ::
  "real \<Rightarrow> step_card list \<Rightarrow> nat \<Rightarrow> nat option \<Rightarrow> real option
     \<Rightarrow> step_card list \<times> nat option \<times> real option" where
  "highlightNextStep_forEach elapsedMinutes [] i nextStep minRemaining =
     ([], nextStep, minRemaining)"
| "highlightNextStep_forEach elapsedMinutes (el # rest) i nextStep minRemaining =
     (let startMinute = dataset_startMinute el;
          remaining = startMinute - elapsedMinutes;
          el' = el\<lparr>classList := classList el - {''border-2'', ''border-accent''}\<rparr>;
          found = (remaining > 0 \<and> below_minimum remaining minRemaining);
          (rest', nextStep', minRemaining') =
             highlightNextStep_forEach elapsedMinutes rest (Suc i)
               (if found then Some i else nextStep)
               (if found then Some remaining else minRemaining)
      in (el' # rest', nextStep', minRemaining'))"

text \<open>
  \<^verbatim>\<open>highlightNextStep(elapsedMinutes)\<close>, returning the cards with their new classes.
  \<^verbatim>\<open>nextStep\<close> is one of the cards of the list whenever it is not \<^verbatim>\<open>null\<close>.
\<close>

definition highlightNextStep :: "real \<Rightarrow> step_card list \<Rightarrow> step_card list" where
  "highlightNextStep elapsedMinutes cards =
     (case highlightNextStep_forEach elapsedMinutes cards 0 None None of
        (cards', nextStep, minRemaining) \<Rightarrow>
          (case nextStep of
             None \<Rightarrow> cards'
           | Some i \<Rightarrow>
               cards'[i := (cards' ! i)\<lparr>classList :=
                  insert ''border-accent'' (insert ''border-2'' (classList (cards' ! i)))\<rparr>]))"

text \<open>The body of the \<^verbatim>\<open>forEach\<close> loop of \<^verbatim>\<open>updateStepCountdowns(elapsedMs)\<close>.\<close>

definition updateStepCountdowns_each :: "real \<Rightarrow> step_card \<Rightarrow> step_card" where
  "updateStepCountdowns_each elapsedMinutes el =
     (let startMinute = dataset_startMinute el;
          durationMinutes = (case dataset_durationMinutes el of None \<Rightarrow> 0 | Some d \<Rightarrow> d);
          endMinute = startMinute + durationMinutes
      in if \<not> has_countdown el then el
         else
           let remainingMinutes = startMinute - elapsedMinutes
           in if endMinute > 0 \<and> elapsedMinutes > endMinute
              then el\<lparr>classList := insert ''hidden'' (classList el)\<rparr>
              else
                let shown = classList el - {''hidden''}
                in if remainingMinutes \<le> 0
                   then el\<lparr>classList := insert ''opacity-60'' shown\<rparr>
                   else el\<lparr>classList := shown - {''opacity-60''}\<rparr>)"

text \<open>
  \<^verbatim>\<open>updateStepCountdowns(elapsedMs)\<close>, which every display tick calls with the elapsed
  milliseconds and which ends with the call of \<^verbatim>\<open>highlightNextStep\<close>.
\<close>

definition updateStepCountdowns :: "real \<Rightarrow> step_card list \<Rightarrow> step_card list" where
  "updateStepCountdowns elapsedMs cards =
     (let elapsedMinutes = elapsedMs / 60000
      in highlightNextStep elapsedMinutes
           (map (updateStepCountdowns_each elapsedMinutes) cards))"

subsection \<open>The copy with step tickets\<close>

text \<open>The \<^verbatim>\<open>forEach\<close> loop of its \<^verbatim>\<open>highlightNextStep(elapsedMinutes)\<close>.\<close>

fun highlightNextStep_ticket_forEach ::
  "real \<Rightarrow> step_card list \<Rightarrow> nat \<Rightarrow> nat option \<Rightarrow> real option
     \<Rightarrow> step_card list \<times> nat option \<times> real option" where
  "highlightNextStep_ticket_forEach elapsedMinutes [] i nextStep minRemaining =
     ([], nextStep, minRemaining)"
| "highlightNextStep_ticket_forEach elapsedMinutes (ticket # rest) i nextStep minRemaining =
     (let startMinute = dataset_startMinute ticket;
          remaining = startMinute - elapsedMinutes;
          ticket' = ticket\<lparr>classList :=
                      classList ticket - {''step-ticket--next'', ''step-ticket--firing''}\<rparr>;
          found = (remaining > 0 \<and> below_minimum remaining minRemaining);
          (rest', nextStep', minRemaining') =
             highlightNextStep_ticket_forEach elapsedMinutes rest (Suc i)
               (if found then Some i else nextStep)
               (if found then Some remaining else minRemaining)
      in (ticket' # rest', nextStep', minRemaining'))"

text \<open>Its \<^verbatim>\<open>highlightNextStep(elapsedMinutes)\<close>, with the firing mark.\<close>

definition highlightNextStep_ticket :: "real \<Rightarrow> step_card list \<Rightarrow> step_card list" where
  "highlightNextStep_ticket elapsedMinutes tickets =
     (case highlightNextStep_ticket_forEach elapsedMinutes tickets 0 None None of
        (tickets', nextStep, minRemaining) \<Rightarrow>
          (case nextStep of
             None \<Rightarrow> tickets'
           | Some i \<Rightarrow>
               tickets'[i := (tickets' ! i)\<lparr>classList :=
                  (if minimum_below minRemaining 0.5
                   then insert ''step-ticket--firing''
                          (insert ''step-ticket--next'' (classList (tickets' ! i)))
                   else insert ''step-ticket--next'' (classList (tickets' ! i)))\<rparr>]))"

text \<open>The body of the \<^verbatim>\<open>forEach\<close> loop of its \<^verbatim>\<open>updateStepCountdowns(elapsedMs)\<close>.\<close>

definition updateStepCountdowns_ticket_each :: "real \<Rightarrow> step_card \<Rightarrow> step_card" where
  "updateStepCountdowns_ticket_each elapsedMinutes ticket =
     (let startMinute = dataset_startMinute ticket;
          durationMinutes = (case dataset_durationMinutes ticket of None \<Rightarrow> 0 | Some d \<Rightarrow> d);
          endMinute = startMinute + durationMinutes
      in if \<not> has_countdown ticket then ticket
         else
           let remainingMinutes = startMinute - elapsedMinutes
           in if endMinute > 0 \<and> elapsedMinutes > endMinute
              then ticket\<lparr>classList := insert ''hidden'' (classList ticket)\<rparr>
              else
                let shown = classList ticket - {''hidden''}
                      - {''step-ticket--waiting'', ''step-ticket--firing'',
                         ''step-ticket--done'', ''step-ticket--next''}
                in if remainingMinutes \<le> 0
                   then ticket\<lparr>classList := insert ''step-ticket--done'' shown\<rparr>
                   else ticket\<lparr>classList := insert ''step-ticket--waiting'' shown\<rparr>)"

text \<open>Its \<^verbatim>\<open>updateStepCountdowns(elapsedMs)\<close>.\<close>

definition updateStepCountdowns_ticket :: "real \<Rightarrow> step_card list \<Rightarrow> step_card list" where
  "updateStepCountdowns_ticket elapsedMs tickets =
     (let elapsedMinutes = elapsedMs / 60000
      in highlightNextStep_ticket elapsedMinutes
           (map (updateStepCountdowns_ticket_each elapsedMinutes) tickets))"

subsection \<open>The specification's wording of the next step\<close>

text \<open>\<open>remaining = startMinute - elapsedMinutes\<close>\<close>

definition remainingMinutes :: "step_card \<Rightarrow> real \<Rightarrow> real" where
  "remainingMinutes el elapsedMinutes = dataset_startMinute el - elapsedMinutes"

text \<open>
  Element \<open>i\<close> has the smallest strictly positive remaining time of all elements; where
  several elements share that time, \<open>i\<close> is the first of them in document order.
\<close>

definition smallest_positive_remaining :: "step_card list \<Rightarrow> real \<Rightarrow> nat \<Rightarrow> bool" where
  "smallest_positive_remaining els e i =
     (i < length els \<and> 0 < remainingMinutes (els ! i) e
      \<and> (\<forall>j < length els. 0 < remainingMinutes (els ! j) e \<longrightarrow>
             remainingMinutes (els ! i) e < remainingMinutes (els ! j) e
             \<or> (remainingMinutes (els ! i) e = remainingMinutes (els ! j) e \<and> i \<le> j)))"

text \<open>The classes that \<^verbatim>\<open>src/js/timer.js\<close> adds to or removes from a step card.\<close>

definition card_classes :: "string set" where
  "card_classes = {''border-2'', ''border-accent'', ''hidden'', ''opacity-60''}"

text \<open>A step card without the border, and a step card with it.\<close>

definition strip_border :: "step_card \<Rightarrow> step_card" where
  "strip_border el = el\<lparr>classList := classList el - {''border-2'', ''border-accent''}\<rparr>"

definition mark_border :: "step_card \<Rightarrow> step_card" where
  "mark_border el =
     el\<lparr>classList := insert ''border-accent'' (insert ''border-2'' (classList el))\<rparr>"

text \<open>A ticket without the two marks, and a ticket with the marks of the next step.\<close>

definition strip_marks :: "step_card \<Rightarrow> step_card" where
  "strip_marks ticket =
     ticket\<lparr>classList := classList ticket - {''step-ticket--next'', ''step-ticket--firing''}\<rparr>"

definition mark_next :: "real \<Rightarrow> step_card \<Rightarrow> step_card" where
  "mark_next remaining ticket =
     ticket\<lparr>classList :=
       (if remaining < 1/2
        then insert ''step-ticket--firing'' (insert ''step-ticket--next'' (classList ticket))
        else insert ''step-ticket--next'' (classList ticket))\<rparr>"

section \<open>Concrete inputs\<close>

text \<open>Scenario A of the specification, and scenario C followed by a parallel block.\<close>

definition scenario_A :: "item list" where
  "scenario_A =
     [Action \<lparr>action_id = ''a'', startMinute = 0, durationMinutes = Some 5, isCriticalPath = False\<rparr>,
      Action \<lparr>action_id = ''b'', startMinute = 5, durationMinutes = Some 3, isCriticalPath = False\<rparr>]"

definition action_y :: action where
  "action_y = \<lparr>action_id = ''y'', startMinute = 0, durationMinutes = Some 10, isCriticalPath = False\<rparr>"

definition scenario_C :: "item list" where
  "scenario_C =
     [Action \<lparr>action_id = ''x'', startMinute = 0, durationMinutes = Some 10, isCriticalPath = False\<rparr>,
      Action action_y,
      Parallel ''z'' 0
        [\<lparr>action_id = ''w'', startMinute = 0, durationMinutes = Some 10, isCriticalPath = True\<rparr>]]"

text \<open>A timeline that is not sorted and has two items starting at minute 10.\<close>

definition item_p :: item where
  "item_p = Action \<lparr>action_id = ''p'', startMinute = 10, durationMinutes = None, isCriticalPath = False\<rparr>"

definition item_q :: item where
  "item_q = Parallel ''q'' 5
     [\<lparr>action_id = ''q1'', startMinute = 1, durationMinutes = Some 2, isCriticalPath = False\<rparr>]"

definition item_r :: item where
  "item_r = Parallel ''r'' 10 []"

definition item_s :: item where
  "item_s = Action \<lparr>action_id = ''s'', startMinute = 2, durationMinutes = Some 1, isCriticalPath = False\<rparr>"

definition unsorted_timeline :: "item list" where
  "unsorted_timeline = [item_p, item_q, item_r, item_s]"

text \<open>
  Timer states: one running since 1000, one paused (scenario D with \<open>T0 = 1000\<close>), one
  paused at a given time, one marked paused without a pause time, and one that only
  records a serving size.
\<close>

definition state_running :: TimerState where
  "state_running = \<lparr> startTime = Val 1000, servingSize = Val 4, currentStepId = Null,
                      isPaused = Val False, pausedAt = Null \<rparr>"

definition state_paused_at :: "int \<Rightarrow> TimerState" where
  "state_paused_at t = \<lparr> startTime = Val 1000, servingSize = Val 4, currentStepId = Null,
                          isPaused = Val True, pausedAt = Val t \<rparr>"

definition state_paused_unset :: TimerState where
  "state_paused_unset = \<lparr> startTime = Val 1000, servingSize = Val 4, currentStepId = Null,
                           isPaused = Val True, pausedAt = Null \<rparr>"

definition state_serving_only :: TimerState where
  "state_serving_only = \<lparr> startTime = Absent, servingSize = Val 2, currentStepId = Absent,
                           isPaused = Absent, pausedAt = Absent \<rparr>"

definition storage_four :: storage where
  "storage_four = Some (Stringified (JObject
     [(''pasta'', state_running), (''soup'', state_paused_at 6000),
      (''salad'', state_serving_only), (''stew'', state_paused_unset)]))"

definition page_stopped :: page where
  "page_stopped = \<lparr> localStorage = None, currentRecipeSlug = Some ''pasta'' \<rparr>"

definition page_running :: page where
  "page_running = \<lparr> localStorage = Some (Stringified (JObject [(''pasta'', state_running)])),
                     currentRecipeSlug = Some ''pasta'' \<rparr>"

definition page_running_since :: "int \<Rightarrow> page" where
  "page_running_since t =
     \<lparr> localStorage = Some (Stringified (JObject [(''pasta'', state_running\<lparr>startTime := Val t\<rparr>)])),
       currentRecipeSlug = Some ''pasta'' \<rparr>"

definition page_paused_at :: "int \<Rightarrow> page" where
  "page_paused_at t = \<lparr> localStorage = Some (Stringified (JObject [(''pasta'', state_paused_at t)])),
                         currentRecipeSlug = Some ''pasta'' \<rparr>"

text \<open>Four tickets, starting at minutes 0, 10, 10 and 20.\<close>

definition ticket_at :: "real \<Rightarrow> step_card" where
  "ticket_at m = \<lparr> dataset_startMinute = m, dataset_durationMinutes = Some 5,
                    has_countdown = True, classList = {''step-ticket''} \<rparr>"

definition four_tickets :: "step_card list" where
  "four_tickets = [ticket_at 0, ticket_at 10, ticket_at 10, ticket_at 20]"

text \<open>Four step cards with the same start minutes.\<close>

definition card_at :: "real \<Rightarrow> step_card" where
  "card_at m = \<lparr> dataset_startMinute = m, dataset_durationMinutes = Some 5,
                  has_countdown = True, classList = {''step-card''} \<rparr>"

definition four_cards :: "step_card list" where
  "four_cards = [card_at 0, card_at 10, card_at 10, card_at 20]"

section \<open>Properties of the timeline engine\<close>

lemma or_zero_eq: "or_zero d = (case d of None \<Rightarrow> 0 | Some x \<Rightarrow> x)"
  by (cases d) auto

lemma getCurrentStep_loop_spec:
  "getCurrentStep_loop T e current =
     (let containing = filter (\<lambda>a. window_contains a e) (top_level_actions T)
      in if containing = [] then current else Some (last containing))"
proof (induction T arbitrary: current)
  case Nil
  show ?case by simp
next
  case (Cons i T)
  show ?case
  proof (cases i)
    case (Action a)
    then show ?thesis
      by (simp add: Cons.IH window_contains_def or_zero_eq Let_def)
  next
    case (Parallel n s as)
    then show ?thesis
      by (simp add: Cons.IH)
  qed
qed

text \<open>
  Claim C2. For every timeline and elapsed time, \<^verbatim>\<open>getCurrentStep\<close> returns the last, in
  timeline order, of the top-level actions whose window
  \<open>[startMinute, startMinute + durationMinutes)\<close> contains the elapsed time, and
  \<^verbatim>\<open>null\<close> when there is none; actions nested in parallel blocks are not considered.
\<close>

theorem getCurrentStep_last_wins:
  "getCurrentStep T e = currentStep_spec T e"
  by (simp add: getCurrentStep_def currentStep_spec_def getCurrentStep_loop_spec)

text \<open>
  Scenario C with a parallel block after it, at minute 1: the windows of \<open>x\<close> and \<open>y\<close>
  and that of the nested \<open>w\<close> contain the time; the later top-level action \<open>y\<close> is
  returned.
\<close>

theorem getCurrentStep_last_wins_witness:
  "getCurrentStep scenario_C 1 = Some action_y \<and> currentStep_spec scenario_C 1 = Some action_y"
proof -
  have "currentStep_spec scenario_C 1 = Some action_y"
    by (simp add: currentStep_spec_def scenario_C_def action_y_def window_contains_def)
  with getCurrentStep_last_wins [of scenario_C 1] show ?thesis by simp
qed

text \<open>Scenarios A and B of the specification.\<close>

lemma scenario_A_current:
  "map_option action_id (getCurrentStep scenario_A 2) = Some ''a''"
  by (simp add: getCurrentStep_def scenario_A_def)

lemma scenario_A_next:
  "map_option item_startMinute (getNextStep scenario_A 2) = Some 5"
  by (simp add: getNextStep_def getUpcomingSteps_def scenario_A_def)

lemma scenario_B_current:
  "map_option action_id (getCurrentStep scenario_A 6) = Some ''b''"
  by (simp add: getCurrentStep_def scenario_A_def)

lemma zero_duration_never_current:
  "getCurrentStep [Action \<lparr>action_id = n, startMinute = s, durationMinutes = None,
                            isCriticalPath = c\<rparr>] e = None"
  by (simp add: getCurrentStep_def)

subsection \<open>Upcoming steps\<close>

lemma Array_insert_insort_key:
  "Array_insert (\<lambda>a b. f a - f b) x xs = insort_key f x xs"
  by (induction xs) simp_all

lemma Array_sort_sort_key:
  "Array_sort (\<lambda>a b. f a - f b) xs = sort_key f xs"
  by (induction xs) (simp_all add: Array_insert_insort_key sort_key_def)

lemma upcoming_filter:
  "(case i of Action a \<Rightarrow> startMinute a > e | Parallel n s as \<Rightarrow> s > e)
     = (item_startMinute i > e)"
  by (cases i) simp_all

lemma getUpcomingSteps_sort_key:
  "getUpcomingSteps T e = sort_key item_startMinute (filter (\<lambda>i. item_startMinute i > e) T)"
  by (simp add: getUpcomingSteps_def Array_sort_sort_key upcoming_filter)

text \<open>
  Claim C4. For every timeline and elapsed time, \<^verbatim>\<open>getUpcomingSteps\<close> returns exactly the
  items of the timeline itself (actions and parallel blocks, each as often as it occurs
  there; an action inside a parallel block is not an item) whose \<^verbatim>\<open>startMinute\<close> is
  strictly greater than the elapsed time; the result is in ascending order of
  \<^verbatim>\<open>startMinute\<close>; and the items with any one \<^verbatim>\<open>startMinute\<close> keep the relative order
  they have in the timeline.
\<close>

theorem getUpcomingSteps_sorted_stable:
  "mset (getUpcomingSteps T e) = mset (filter (\<lambda>i. item_startMinute i > e) T)
   \<and> sorted (map item_startMinute (getUpcomingSteps T e))
   \<and> (\<forall>k. filter (\<lambda>i. item_startMinute i = k) (getUpcomingSteps T e)
          = filter (\<lambda>i. item_startMinute i = k) (filter (\<lambda>i. item_startMinute i > e) T))"
  by (simp only: getUpcomingSteps_sort_key mset_sort sorted_sort_key sort_key_stable simp_thms)

text \<open>
  The unsorted timeline at minute 3: \<open>s\<close> (minute 2) is not upcoming, the block \<open>q\<close>
  (minute 5) comes first, and \<open>p\<close> and \<open>r\<close> (both minute 10) keep their order.
\<close>

theorem getUpcomingSteps_sorted_stable_witness:
  "getUpcomingSteps unsorted_timeline 3 = [item_q, item_p, item_r]
   \<and> sorted (map item_startMinute (getUpcomingSteps unsorted_timeline 3))
   \<and> filter (\<lambda>i. item_startMinute i = 10) (getUpcomingSteps unsorted_timeline 3) = [item_p, item_r]"
proof -
  have r: "getUpcomingSteps unsorted_timeline 3 = [item_q, item_p, item_r]"
    by (simp add: getUpcomingSteps_def unsorted_timeline_def item_p_def item_q_def item_r_def
          item_s_def)
  have "filter (\<lambda>i. item_startMinute i = 10) (filter (\<lambda>i. item_startMinute i > 3) unsorted_timeline)
          = [item_p, item_r]"
    by (simp add: unsorted_timeline_def item_p_def item_q_def item_r_def item_s_def)
  with getUpcomingSteps_sorted_stable [of unsorted_timeline 3] r show ?thesis by simp
qed

section \<open>Properties of the timer state store\<close>

lemma getState_Inr:
  "getState st r = Inr x \<longleftrightarrow>
     (st = None \<and> x = None) \<or> (st = Some Empty \<and> x = None)
     \<or> (\<exists>m. st = Some (Stringified (JObject m)) \<and> x = map_of m r)"
proof (cases st)
  case None
  then show ?thesis by (auto simp: getState_def)
next
  case (Some data)
  show ?thesis
  proof (cases data)
    case (Stringified v)
    with Some show ?thesis by (cases v) (auto simp: getState_def)
  qed (use Some in \<open>auto simp: getState_def\<close>)
qed

text \<open>
  Where \<^verbatim>\<open>getState\<close> returns, \<^verbatim>\<open>setState\<close> returns too, and afterwards \<^verbatim>\<open>getState\<close>
  gives the state written for that slug and what it gave before for every other slug
  (the round trip of the specification).
\<close>

lemma getState_setState:
  assumes "getState st r0 = Inr x"
  shows "\<exists>st'. setState st slug state = Inr st'
           \<and> (\<forall>r. getState st' r = (if r = slug then Inr (Some state) else getState st r))"
  using assms
  by (auto simp: getState_def setState_def JSON_stringify_def update_conv'
           split: option.splits stored_text.splits json.splits sum.splits if_splits)

lemma getState_clearState:
  assumes "getState st r0 = Inr x"
  shows "\<exists>st'. clearState st slug = Inr st'
           \<and> (\<forall>r. getState st' r = (if r = slug then Inr None else getState st r))"
  using assms
  by (auto simp: getState_def clearState_def JSON_stringify_def delete_conv'
           split: option.splits stored_text.splits json.splits sum.splits if_splits)

lemma setState_setState:
  assumes "setState st slug a = Inr st1"
  shows "setState st1 slug b = setState st slug b"
proof (cases st)
  case None
  with assms show ?thesis by (auto simp: setState_def JSON_stringify_def)
next
  case (Some data)
  show ?thesis
  proof (cases data)
    case (Stringified v)
    with Some assms show ?thesis
      by (cases v) (auto simp: setState_def JSON_stringify_def)
  qed (use Some assms in \<open>auto simp: setState_def JSON_stringify_def\<close>)
qed

subsection \<open>Missing and malformed storage\<close>

text \<open>
  Claim C1 says that \<^verbatim>\<open>getState\<close> never throws. It does: with text under the key that is
  not JSON, the \<^verbatim>\<open>SyntaxError\<close> of \<^verbatim>\<open>JSON.parse\<close> reaches the caller, since no function of
  the store catches it.
\<close>

theorem malformed_storage_throws:
  "getState (Some Malformed) ''roast-chicken'' = Inl SyntaxError"
  by (simp add: getState_def)

text \<open>
  Claim C1, amended. For every recipe slug, \<^verbatim>\<open>getState\<close> returns \<^verbatim>\<open>null\<close> when nothing
  is stored under the key or the stored string is empty, and the entry of the slug
  (\<^verbatim>\<open>null\<close> if there is none) when the stored string is the JSON text of a mapping; when
  the stored string is not empty and not JSON, \<^verbatim>\<open>getState\<close> throws the \<^verbatim>\<open>SyntaxError\<close>
  of \<^verbatim>\<open>JSON.parse\<close>.
\<close>

theorem getState_missing_or_malformed:
  "getState None slug = Inr None
   \<and> getState (Some Empty) slug = Inr None
   \<and> getState (Some (Stringified (JObject parsed))) slug = Inr (map_of parsed slug)
   \<and> getState (Some Malformed) slug = Inl SyntaxError"
  by (simp add: getState_def)

subsection \<open>Elapsed time\<close>

text \<open>
  Claim C3. For every recipe slug and clock reading, \<^verbatim>\<open>getElapsedMs\<close> returns 0 when
  there is no stored state, and when the state has no start time (\<^verbatim>\<open>startTime\<close> missing,
  \<^verbatim>\<open>null\<close> or 0); for a paused state, one with a start time whose \<^verbatim>\<open>isPaused\<close> is
  \<^verbatim>\<open>true\<close> and whose \<^verbatim>\<open>pausedAt\<close> is a time stamp (not 0), it returns
  \<^verbatim>\<open>pausedAt - startTime\<close> whatever the clock reads; for a running state, one with a
  start time that is not paused, it returns \<^verbatim>\<open>now - startTime\<close>.
\<close>

theorem getElapsedMs_cases:
  "(getState st slug = Inr None \<longrightarrow> getElapsedMs st slug now = Inr (Some 0))
   \<and> (getState st slug = Inr (Some s) \<and> \<not> truthy_number (startTime s)
        \<longrightarrow> getElapsedMs st slug now = Inr (Some 0))
   \<and> (getState st slug = Inr (Some s) \<and> startTime s = Val t \<and> t \<noteq> 0
        \<and> isPaused s = Val True \<and> pausedAt s = Val pa \<and> pa \<noteq> 0
        \<longrightarrow> (\<forall>now'. getElapsedMs st slug now' = Inr (Some (pa - t))))
   \<and> (getState st slug = Inr (Some s) \<and> startTime s = Val t \<and> t \<noteq> 0
        \<and> \<not> truthy_boolean (isPaused s)
        \<longrightarrow> getElapsedMs st slug now = Inr (Some (now - t)))"
  by (simp add: getElapsedMs_def)

lemma storage_four_entries:
  "getState storage_four ''bread'' = Inr None"
  "getState storage_four ''salad'' = Inr (Some state_serving_only)"
  "getState storage_four ''soup'' = Inr (Some (state_paused_at 6000))"
  "getState storage_four ''pasta'' = Inr (Some state_running)"
  "getState storage_four ''stew'' = Inr (Some state_paused_unset)"
  by (simp_all add: getState_def storage_four_def)

text \<open>
  No entry, an entry without start time, scenario D of the specification (paused 5000 ms
  after the start, asked at two different times) and a running entry.
\<close>

theorem getElapsedMs_cases_witness:
  "getElapsedMs storage_four ''bread'' 9000 = Inr (Some 0)
   \<and> getElapsedMs storage_four ''salad'' 9000 = Inr (Some 0)
   \<and> getElapsedMs storage_four ''soup'' 9000 = Inr (Some 5000)
   \<and> getElapsedMs storage_four ''soup'' 99000 = Inr (Some 5000)
   \<and> getElapsedMs storage_four ''pasta'' 9000 = Inr (Some 8000)"
proof -
  have a: "getElapsedMs storage_four ''bread'' 9000 = Inr (Some 0)"
    using getElapsedMs_cases [where st = storage_four and slug = "''bread''" and now = 9000]
      storage_four_entries(1) by simp
  have b: "getElapsedMs storage_four ''salad'' 9000 = Inr (Some 0)"
    using getElapsedMs_cases [where st = storage_four and slug = "''salad''" and now = 9000
        and s = state_serving_only] storage_four_entries(2)
    by (simp add: state_serving_only_def)
  have c: "\<forall>now'. getElapsedMs storage_four ''soup'' now' = Inr (Some (6000 - 1000))"
    using getElapsedMs_cases [where st = storage_four and slug = "''soup''"
        and s = "state_paused_at 6000" and t = 1000 and pa = 6000] storage_four_entries(3)
    by (simp add: state_paused_at_def)
  have d: "getElapsedMs storage_four ''pasta'' 9000 = Inr (Some (9000 - 1000))"
    using getElapsedMs_cases [where st = storage_four and slug = "''pasta''" and now = 9000
        and s = state_running and t = 1000] storage_four_entries(4)
    by (simp add: state_running_def)
  from a b c d show ?thesis by simp
qed

text \<open>
  Claim C10. For every stored state with a start time whose \<^verbatim>\<open>isPaused\<close> is \<^verbatim>\<open>true\<close>
  but whose \<^verbatim>\<open>pausedAt\<close> is missing, \<^verbatim>\<open>null\<close> or 0, \<^verbatim>\<open>getElapsedMs\<close> does not freeze the
  elapsed time: it returns \<^verbatim>\<open>now - startTime\<close>, as for a running state.
\<close>

theorem getElapsedMs_paused_without_pausedAt:
  assumes "getState st slug = Inr (Some s)"
    and "startTime s = Val t" and "t \<noteq> 0"
    and "isPaused s = Val True"
    and "pausedAt s = Absent \<or> pausedAt s = Null \<or> pausedAt s = Val 0"
  shows "getElapsedMs st slug now = Inr (Some (now - t))"
  using assms by (auto simp: getElapsedMs_def)

theorem getElapsedMs_paused_without_pausedAt_witness:
  "getElapsedMs storage_four ''stew'' 9000 = Inr (Some 8000)
   \<and> getElapsedMs storage_four ''stew'' 99000 = Inr (Some 98000)"
proof -
  have s: "startTime state_paused_unset = Val 1000" "(1000::int) \<noteq> 0"
    "isPaused state_paused_unset = Val True"
    "pausedAt state_paused_unset = Absent \<or> pausedAt state_paused_unset = Null
       \<or> pausedAt state_paused_unset = Val 0"
    by (simp_all add: state_paused_unset_def)
  from getElapsedMs_paused_without_pausedAt [OF storage_four_entries(5) s, of 9000]
    getElapsedMs_paused_without_pausedAt [OF storage_four_entries(5) s, of 99000]
  show ?thesis by simp
qed

subsection \<open>Clearing one recipe\<close>

text \<open>
  Claim C9. For every two distinct recipe slugs with stored states, \<^verbatim>\<open>clearState\<close> of
  the first removes only its entry: afterwards \<^verbatim>\<open>getState\<close> returns \<^verbatim>\<open>null\<close> for the
  first, the state stored before for the second, and what it returned before for every
  other slug.
\<close>

theorem clearState_frame:
  assumes "r1 \<noteq> r2"
    and "getState st r1 = Inr (Some s1)"
    and "getState st r2 = Inr (Some s2)"
  shows "\<exists>st'. clearState st r1 = Inr st'
           \<and> getState st' r1 = Inr None
           \<and> getState st' r2 = Inr (Some s2)
           \<and> (\<forall>r. r \<noteq> r1 \<longrightarrow> getState st' r = getState st r)"
  using getState_clearState [OF assms(2), of r1] assms by auto

theorem clearState_frame_witness:
  "\<exists>st'. clearState storage_four ''pasta'' = Inr st'
         \<and> getState st' ''pasta'' = Inr None
         \<and> getState st' ''soup'' = Inr (Some (state_paused_at 6000))
         \<and> (\<forall>r. r \<noteq> ''pasta'' \<longrightarrow> getState st' r = getState storage_four r)"
proof -
  have "''pasta'' \<noteq> ''soup''" by simp
  from clearState_frame [OF this storage_four_entries(4) storage_four_entries(3)]
  show ?thesis .
qed

section \<open>Properties of the timer controls\<close>

text \<open>What each control stores, for a page whose current recipe slug is set.\<close>

lemma pauseTimer_stored:
  assumes "currentRecipeSlug p = Some slug" and "slug \<noteq> []"
    and "getState (localStorage p) slug = Inr (Some s)"
  shows "\<exists>st'. pauseTimer p now = Inr (p\<lparr>localStorage := st'\<rparr>)
           \<and> (\<forall>r. getState st' r =
                 (if r = slug then Inr (Some (s\<lparr>isPaused := Val True, pausedAt := Val now\<rparr>))
                  else getState (localStorage p) r))"
proof -
  let ?s' = "s\<lparr>isPaused := Val True, pausedAt := Val now\<rparr>"
  from getState_setState [OF assms(3), of slug ?s']
  obtain st' where "setState (localStorage p) slug ?s' = Inr st'"
    and "\<forall>r. getState st' r = (if r = slug then Inr (Some ?s') else getState (localStorage p) r)"
    by blast
  then show ?thesis using assms by (auto simp: pauseTimer_def)
qed

lemma pauseTimer_absent:
  assumes "getState (localStorage p) (slug_of (currentRecipeSlug p)) = Inr None"
  shows "pauseTimer p now = Inr p"
  using assms by (simp add: pauseTimer_def)

lemma resumeTimer_paused:
  assumes "currentRecipeSlug p = Some slug" and "slug \<noteq> []"
    and "getState (localStorage p) slug = Inr (Some s)"
    and "truthy_boolean (isPaused s)"
  shows "\<exists>st'. resumeTimer p now = Inr (p\<lparr>localStorage := st'\<rparr>)
           \<and> (\<forall>r. getState st' r =
                 (if r = slug
                  then Inr (Some (s\<lparr>startTime := stringified_number
                         (number_plus (ToNumber (startTime s))
                            (number_minus (Some now) (ToNumber (pausedAt s)))),
                       isPaused := Val False, pausedAt := Null\<rparr>))
                  else getState (localStorage p) r))"
proof -
  let ?s' = "s\<lparr>startTime := stringified_number
                 (number_plus (ToNumber (startTime s))
                    (number_minus (Some now) (ToNumber (pausedAt s)))),
               isPaused := Val False, pausedAt := Null\<rparr>"
  from getState_setState [OF assms(3), of slug ?s']
  obtain st' where "setState (localStorage p) slug ?s' = Inr st'"
    and "\<forall>r. getState st' r = (if r = slug then Inr (Some ?s') else getState (localStorage p) r)"
    by blast
  then show ?thesis using assms by (auto simp: resumeTimer_def Let_def)
qed

lemma resumeTimer_not_paused:
  assumes "getState (localStorage p) (slug_of (currentRecipeSlug p)) = Inr (Some s)"
    and "\<not> truthy_boolean (isPaused s)"
  shows "resumeTimer p now = Inr p"
  using assms by (simp add: resumeTimer_def)

lemma resumeTimer_absent:
  assumes "getState (localStorage p) (slug_of (currentRecipeSlug p)) = Inr None"
  shows "resumeTimer p now = Inr p"
  using assms by (simp add: resumeTimer_def)

lemma startTimer_stored:
  assumes "currentRecipeSlug p = Some slug" and "slug \<noteq> []"
    and "getState (localStorage p) slug = Inr x"
  shows "\<exists>st'. startTimer p now selected = Inr (p\<lparr>localStorage := st'\<rparr>)
           \<and> (\<forall>r. getState st' r =
                 (if r = slug
                  then Inr (Some \<lparr> startTime = Val now,
                                   servingSize = stringified_number selected,
                                   currentStepId = Null,
                                   isPaused = Val False,
                                   pausedAt = Null \<rparr>)
                  else getState (localStorage p) r))"
proof -
  let ?s' = "\<lparr> startTime = Val now, servingSize = stringified_number selected,
               currentStepId = Null, isPaused = Val False, pausedAt = Null \<rparr>"
  from getState_setState [OF assms(3), of slug ?s']
  obtain st' where "setState (localStorage p) slug ?s' = Inr st'"
    and "\<forall>r. getState st' r = (if r = slug then Inr (Some ?s') else getState (localStorage p) r)"
    by blast
  then show ?thesis using assms by (auto simp: startTimer_def Let_def)
qed

text \<open>
  Scenario E of the specification: a confirmed reset removes the entry of the current
  recipe and leaves what \<^verbatim>\<open>getState\<close> returns for every other recipe as it was.
\<close>

lemma resetTimer_stored:
  assumes "currentRecipeSlug p = Some slug" and "slug \<noteq> []"
    and "getState (localStorage p) slug = Inr x"
  shows "\<exists>st'. resetTimer p confirmed = Inr (p\<lparr>localStorage := st'\<rparr>)
           \<and> (\<forall>r. getState st' r =
                 (if r = slug \<and> confirmed then Inr None else getState (localStorage p) r))"
proof (cases confirmed)
  case True
  from getState_clearState [OF assms(3), of slug]
  obtain st' where "clearState (localStorage p) slug = Inr st'"
    and "\<forall>r. getState st' r = (if r = slug then Inr None else getState (localStorage p) r)"
    by blast
  then show ?thesis using assms True by (auto simp: resetTimer_def)
next
  case False
  have "resetTimer p confirmed = Inr p"
    using False by (simp add: resetTimer_def)
  moreover have "p = p\<lparr>localStorage := localStorage p\<rparr>" by simp
  ultimately have "resetTimer p confirmed = Inr (p\<lparr>localStorage := localStorage p\<rparr>)
      \<and> (\<forall>r. getState (localStorage p) r =
             (if r = slug \<and> confirmed then Inr None else getState (localStorage p) r))"
    using False by simp
  then show ?thesis by (rule exI)
qed

subsection \<open>Pausing twice\<close>

lemma page_running_facts:
  "currentRecipeSlug page_running = Some ''pasta''"
  "''pasta'' \<noteq> []"
  "getState (localStorage page_running) ''pasta'' = Inr (Some state_running)"
  by (simp_all add: page_running_def getState_def)

text \<open>
  Claim C5. For every running timer state, calling \<^verbatim>\<open>pauseTimer\<close> twice in a row is to
  leave the stored state as the first call left it. \<^verbatim>\<open>pauseTimer\<close> does not do that: it
  has no test of \<^verbatim>\<open>isPaused\<close>, as \<^verbatim>\<open>resumeTimer\<close> has, and the second call writes its
  own clock reading into \<^verbatim>\<open>pausedAt\<close>. Here a timer running since 1000 is paused at 2000
  and again at 3000. The stored state changes; the elapsed time, 1000 at the first pause
  and frozen there, reads 2000 after the second; and after a resume at 4000 the elapsed
  time is 2000, where one pause at 2000 and the resume at 4000 give 1000: the time
  between the two pauses is counted although the timer was paused.
\<close>

theorem second_pause_overwrites_pausedAt:
  "pauseTimer page_running 2000 = Inr (page_paused_at 2000)
   \<and> pauseTimer (page_paused_at 2000) 3000 = Inr (page_paused_at 3000)
   \<and> getState (localStorage (page_paused_at 3000)) ''pasta''
       \<noteq> getState (localStorage (page_paused_at 2000)) ''pasta''
   \<and> getElapsedMs (localStorage page_running) ''pasta'' 2000 = Inr (Some 1000)
   \<and> getElapsedMs (localStorage (page_paused_at 2000)) ''pasta'' 3000 = Inr (Some 1000)
   \<and> getElapsedMs (localStorage (page_paused_at 3000)) ''pasta'' 3000 = Inr (Some 2000)
   \<and> session page_running [Pause 2000, Resume 4000] = Inr (page_running_since 3000)
   \<and> getElapsedMs (localStorage (page_running_since 3000)) ''pasta'' 4000 = Inr (Some 1000)
   \<and> session page_running [Pause 2000, Pause 3000, Resume 4000] = Inr (page_running_since 2000)
   \<and> getElapsedMs (localStorage (page_running_since 2000)) ''pasta'' 4000 = Inr (Some 2000)"
  by (simp add: pauseTimer_def resumeTimer_def page_running_def page_paused_at_def
        page_running_since_def state_running_def state_paused_at_def getState_def setState_def
        getElapsedMs_def JSON_stringify_def)

text \<open>
  The same at every stored state and every two clock readings: the second call replaces
  the \<^verbatim>\<open>pausedAt\<close> of the first, so that two calls leave what one call at the second
  reading leaves, and the second call changes the page unless both readings are equal.
\<close>

lemma pauseTimer_overwrites:
  assumes "currentRecipeSlug p = Some slug" and "slug \<noteq> []"
    and "getState (localStorage p) slug = Inr (Some s)"
  shows "\<exists>p1 p2. pauseTimer p t1 = Inr p1 \<and> pauseTimer p1 t2 = Inr p2
           \<and> pauseTimer p t2 = Inr p2
           \<and> getState (localStorage p1) slug
               = Inr (Some (s\<lparr>isPaused := Val True, pausedAt := Val t1\<rparr>))
           \<and> getState (localStorage p2) slug
               = Inr (Some (s\<lparr>isPaused := Val True, pausedAt := Val t2\<rparr>))
           \<and> (p2 = p1 \<longleftrightarrow> t1 = t2)"
proof -
  let ?s1 = "s\<lparr>isPaused := Val True, pausedAt := Val t1\<rparr>"
  let ?s2 = "s\<lparr>isPaused := Val True, pausedAt := Val t2\<rparr>"
  from getState_setState [OF assms(3), of slug ?s1] obtain st1
    where w1: "setState (localStorage p) slug ?s1 = Inr st1"
      and g1: "getState st1 slug = Inr (Some ?s1)"
    by auto
  from getState_setState [OF assms(3), of slug ?s2] obtain st2
    where w2: "setState (localStorage p) slug ?s2 = Inr st2"
      and g2: "getState st2 slug = Inr (Some ?s2)"
    by auto
  have p1: "pauseTimer p t1 = Inr (p\<lparr>localStorage := st1\<rparr>)"
    using assms w1 by (simp add: pauseTimer_def)
  have p2: "pauseTimer p t2 = Inr (p\<lparr>localStorage := st2\<rparr>)"
    using assms w2 by (simp add: pauseTimer_def)
  have "setState st1 slug (?s1\<lparr>isPaused := Val True, pausedAt := Val t2\<rparr>) = Inr st2"
    using setState_setState [OF w1, of ?s2] w2 by simp
  then have p12: "pauseTimer (p\<lparr>localStorage := st1\<rparr>) t2 = Inr (p\<lparr>localStorage := st2\<rparr>)"
    using assms(1,2) g1 by (simp add: pauseTimer_def)
  have "?s2 = ?s1 \<longleftrightarrow> t1 = t2"
    by (cases s) auto
  moreover have "t1 = t2 \<Longrightarrow> st2 = st1" using w1 w2 by simp
  moreover have "st2 = st1 \<Longrightarrow> ?s2 = ?s1" using g1 g2 by simp
  moreover have "p\<lparr>localStorage := st2\<rparr> = p\<lparr>localStorage := st1\<rparr> \<longleftrightarrow> st2 = st1"
    by (cases p) simp
  ultimately have "p\<lparr>localStorage := st2\<rparr> = p\<lparr>localStorage := st1\<rparr> \<longleftrightarrow> t1 = t2"
    by blast
  with p1 p2 p12 g1 g2 show ?thesis by simp
qed

subsection \<open>Pause and resume\<close>

text \<open>
  Claim C7. For every running timer state (its \<^verbatim>\<open>startTime\<close> a time stamp \<open>t0 > 0\<close>, not
  paused) and every pause duration (a pause at \<open>t1\<close>, the resume at \<open>t2 \<ge> t1\<close>), both
  calls succeed, \<^verbatim>\<open>resumeTimer\<close> stores \<^verbatim>\<open>startTime\<close> advanced by exactly \<open>t2 - t1\<close> with
  \<^verbatim>\<open>isPaused\<close> false and \<^verbatim>\<open>pausedAt\<close> \<^verbatim>\<open>null\<close>, and the elapsed time read at the moment
  of the pause, \<open>t1 - t0\<close>, is the elapsed time read at the moment of the resume.
\<close>

theorem pause_resume_no_drift:
  assumes "currentRecipeSlug p = Some slug" and "slug \<noteq> []"
    and "getState (localStorage p) slug = Inr (Some s)"
    and "startTime s = Val t0" and "0 < t0"
    and "\<not> truthy_boolean (isPaused s)"
    and "t1 \<le> t2"
  shows "\<exists>p1 p2. pauseTimer p t1 = Inr p1 \<and> resumeTimer p1 t2 = Inr p2
           \<and> getState (localStorage p2) slug
               = Inr (Some (s\<lparr>startTime := Val (t0 + (t2 - t1)),
                               isPaused := Val False, pausedAt := Null\<rparr>))
           \<and> getElapsedMs (localStorage p) slug t1 = Inr (Some (t1 - t0))
           \<and> getElapsedMs (localStorage p2) slug t2 = Inr (Some (t1 - t0))"
proof -
  let ?s1 = "s\<lparr>isPaused := Val True, pausedAt := Val t1\<rparr>"
  from pauseTimer_stored [OF assms(1-3), of t1] obtain st1
    where p1: "pauseTimer p t1 = Inr (p\<lparr>localStorage := st1\<rparr>)"
      and g1: "getState st1 slug = Inr (Some ?s1)"
    by auto
  let ?p1 = "p\<lparr>localStorage := st1\<rparr>"
  have c1: "currentRecipeSlug ?p1 = Some slug" using assms(1) by simp
  have s1: "getState (localStorage ?p1) slug = Inr (Some ?s1)" using g1 by simp
  have paused: "truthy_boolean (isPaused ?s1)" by simp
  from resumeTimer_paused [OF c1 assms(2) s1 paused, of t2] obtain st2
    where p2: "resumeTimer ?p1 t2 = Inr (?p1\<lparr>localStorage := st2\<rparr>)"
      and g2: "getState st2 slug
                 = Inr (Some (s\<lparr>startTime := Val (t0 + (t2 - t1)),
                                 isPaused := Val False, pausedAt := Null\<rparr>))"
    using assms(4) by auto
  have before: "getElapsedMs (localStorage p) slug t1 = Inr (Some (t1 - t0))"
    using assms by (simp add: getElapsedMs_def)
  have "t0 + (t2 - t1) \<noteq> 0" using assms(5,7) by arith
  then have after: "getElapsedMs st2 slug t2 = Inr (Some (t1 - t0))"
    using g2 by (simp add: getElapsedMs_def)
  show ?thesis using p1 p2 g2 before after by simp
qed

text \<open>
  The timer running since 1000 is paused at 61000 and resumed five minutes later: the
  start time moves to 301000, and the elapsed time is 60000 before and after.
\<close>

theorem pause_resume_no_drift_witness:
  "\<exists>p1 p2. pauseTimer page_running 61000 = Inr p1 \<and> resumeTimer p1 361000 = Inr p2
      \<and> getState (localStorage p2) ''pasta''
          = Inr (Some (state_running\<lparr>startTime := Val 301000\<rparr>))
      \<and> getElapsedMs (localStorage page_running) ''pasta'' 61000 = Inr (Some 60000)
      \<and> getElapsedMs (localStorage p2) ''pasta'' 361000 = Inr (Some 60000)"
proof -
  have s: "startTime state_running = Val 1000" "(0::int) < 1000"
    "\<not> truthy_boolean (isPaused state_running)" "(61000::int) \<le> 361000"
    by (simp_all add: state_running_def)
  from pause_resume_no_drift [OF page_running_facts s]
  show ?thesis by (simp add: state_running_def)
qed

subsection \<open>The pause fields agree\<close>

lemma control_call_invariant:
  assumes "currentRecipeSlug p = Some slug" and "slug \<noteq> []"
    and "getState (localStorage p) slug = Inr x" and "pause_fields_agree x"
  shows "\<exists>p' x'. control_call p c = Inr p' \<and> currentRecipeSlug p' = Some slug
           \<and> getState (localStorage p') slug = Inr x' \<and> pause_fields_agree x'"
proof (cases c)
  case (Start now selected)
  from startTimer_stored [OF assms(1-3), of now selected] show ?thesis
    using Start assms(1) by (auto simp: pause_fields_agree_def pausedAt_is_set_def)
next
  case (Pause now)
  show ?thesis
  proof (cases x)
    case None
    then show ?thesis using Pause assms pauseTimer_absent [of p now] by auto
  next
    case (Some s)
    with pauseTimer_stored [OF assms(1,2), of s now] assms(3) show ?thesis
      using Pause assms(1) by (auto simp: pause_fields_agree_def pausedAt_is_set_def)
  qed
next
  case (Resume now)
  show ?thesis
  proof (cases x)
    case None
    then show ?thesis using Resume assms resumeTimer_absent [of p now] by auto
  next
    case (Some s)
    show ?thesis
    proof (cases "truthy_boolean (isPaused s)")
      case True
      with resumeTimer_paused [OF assms(1,2), of s now] assms(3) Some show ?thesis
        using Resume assms(1) by (auto simp: pause_fields_agree_def pausedAt_is_set_def)
    next
      case False
      then show ?thesis using Resume Some assms resumeTimer_not_paused [of p s now] by auto
    qed
  qed
next
  case (Reset confirmed)
  from resetTimer_stored [OF assms(1-3), of confirmed] show ?thesis
    using Reset assms by (auto simp: pause_fields_agree_def)
qed

lemma session_invariant:
  assumes "currentRecipeSlug p = Some slug" and "slug \<noteq> []"
    and "getState (localStorage p) slug = Inr x" and "pause_fields_agree x"
  shows "\<exists>p' x'. session p cs = Inr p' \<and> currentRecipeSlug p' = Some slug
           \<and> getState (localStorage p') slug = Inr x' \<and> pause_fields_agree x'"
  using assms
proof (induction cs arbitrary: p x)
  case Nil
  then show ?case by simp
next
  case (Cons c cs)
  from control_call_invariant [OF Cons.prems, of c] obtain p' x'
    where "control_call p c = Inr p'" and "currentRecipeSlug p' = Some slug"
      and "getState (localStorage p') slug = Inr x'" and "pause_fields_agree x'"
    by blast
  with Cons.IH [of p' x'] Cons.prems(2) show ?case by simp
qed

lemma truthy_boolean_iff: "truthy_boolean b \<longleftrightarrow> b = Val True"
  by (cases b) auto

text \<open>
  Claim C8. From the stopped timer of a recipe (no stored state for its slug), every
  sequence of calls of the controls start, pause and resume (and reset), at any clock
  readings, runs without an exception, and in the state it leaves stored, if any,
  \<^verbatim>\<open>pausedAt\<close> is set if and only if \<^verbatim>\<open>isPaused\<close> is \<^verbatim>\<open>true\<close>. On the page reached,
  the controls act on the two fields as follows. \<^verbatim>\<open>startTimer\<close> stores a state with
  \<^verbatim>\<open>isPaused\<close> false and \<^verbatim>\<open>pausedAt\<close> \<^verbatim>\<open>null\<close>. \<^verbatim>\<open>pauseTimer\<close> stores the state there is
  with \<^verbatim>\<open>isPaused\<close> true and \<^verbatim>\<open>pausedAt\<close> the clock reading. \<^verbatim>\<open>resumeTimer\<close>, when
  \<^verbatim>\<open>isPaused\<close> is true, stores the state with \<^verbatim>\<open>isPaused\<close> false, \<^verbatim>\<open>pausedAt\<close>
  \<^verbatim>\<open>null\<close> and the start time moved by the length of the pause; when \<^verbatim>\<open>isPaused\<close> is not
  true it changes nothing. Without a stored state, \<^verbatim>\<open>pauseTimer\<close> and \<^verbatim>\<open>resumeTimer\<close>
  change nothing.
\<close>

theorem pausedAt_iff_isPaused:
  assumes "currentRecipeSlug p0 = Some slug" and "slug \<noteq> []"
    and "getState (localStorage p0) slug = Inr None"
  shows "\<exists>p x. session p0 cs = Inr p \<and> getState (localStorage p) slug = Inr x
           \<and> (\<forall>s. x = Some s \<longrightarrow> (pausedAt_is_set s \<longleftrightarrow> isPaused s = Val True))
           \<and> (\<forall>now selected. \<exists>p'. startTimer p now selected = Inr p'
                 \<and> getState (localStorage p') slug
                     = Inr (Some \<lparr> startTime = Val now,
                                      servingSize = stringified_number selected,
                                      currentStepId = Null,
                                      isPaused = Val False,
                                      pausedAt = Null \<rparr>))
           \<and> (\<forall>s now. x = Some s \<longrightarrow> (\<exists>p'. pauseTimer p now = Inr p'
                 \<and> getState (localStorage p') slug
                     = Inr (Some (s\<lparr>isPaused := Val True, pausedAt := Val now\<rparr>))))
           \<and> (\<forall>s now. x = Some s \<and> isPaused s = Val True \<longrightarrow> (\<exists>p'. resumeTimer p now = Inr p'
                 \<and> getState (localStorage p') slug
                     = Inr (Some (s\<lparr>startTime := stringified_number
                                      (number_plus (ToNumber (startTime s))
                                         (number_minus (Some now) (ToNumber (pausedAt s)))),
                                    isPaused := Val False, pausedAt := Null\<rparr>))))
           \<and> (\<forall>s now. x = Some s \<and> isPaused s \<noteq> Val True \<longrightarrow> resumeTimer p now = Inr p)
           \<and> (\<forall>now. x = None \<longrightarrow> pauseTimer p now = Inr p \<and> resumeTimer p now = Inr p)"
proof -
  have "pause_fields_agree None" by (simp add: pause_fields_agree_def)
  from session_invariant [OF assms this, of cs] obtain p x
    where run: "session p0 cs = Inr p" and slug: "currentRecipeSlug p = Some slug"
      and x: "getState (localStorage p) slug = Inr x" and agree: "pause_fields_agree x"
    by blast
  have inv: "\<forall>s. x = Some s \<longrightarrow> (pausedAt_is_set s \<longleftrightarrow> isPaused s = Val True)"
    using agree by (auto simp: pause_fields_agree_def)
  have start: "\<exists>p'. startTimer p now selected = Inr p'
                 \<and> getState (localStorage p') slug
                     = Inr (Some \<lparr> startTime = Val now,
                                      servingSize = stringified_number selected,
                                      currentStepId = Null,
                                      isPaused = Val False,
                                      pausedAt = Null \<rparr>)" for now selected
    using startTimer_stored [OF slug assms(2) x, of now selected] by auto
  have pause: "\<exists>p'. pauseTimer p now = Inr p'
                 \<and> getState (localStorage p') slug
                     = Inr (Some (s\<lparr>isPaused := Val True, pausedAt := Val now\<rparr>))"
    if "x = Some s" for s now
    using pauseTimer_stored [OF slug assms(2), of s now] x that by auto
  have resume: "\<exists>p'. resumeTimer p now = Inr p'
                 \<and> getState (localStorage p') slug
                     = Inr (Some (s\<lparr>startTime := stringified_number
                                      (number_plus (ToNumber (startTime s))
                                         (number_minus (Some now) (ToNumber (pausedAt s)))),
                                    isPaused := Val False, pausedAt := Null\<rparr>))"
    if "x = Some s \<and> isPaused s = Val True" for s now
    using resumeTimer_paused [OF slug assms(2), of s now] x that by auto
  have idle: "resumeTimer p now = Inr p" if "x = Some s \<and> isPaused s \<noteq> Val True" for s now
    using resumeTimer_not_paused [of p s now] x slug that by (simp add: truthy_boolean_iff)
  have absent: "pauseTimer p now = Inr p \<and> resumeTimer p now = Inr p" if "x = None" for now
    using pauseTimer_absent [of p now] resumeTimer_absent [of p now] x slug that by simp
  from run x inv start pause resume idle absent show ?thesis by blast
qed

lemma session_example:
  "session page_stopped [Start 1000 (Some 4), Pause 61000] = Inr (page_paused_at 61000)"
  "resumeTimer (page_paused_at 61000) 361000 = Inr (page_running_since 301000)"
  "session page_stopped [Start 1000 (Some 4), Pause 61000, Resume 361000]
     = Inr (page_running_since 301000)"
  by (simp_all add: page_stopped_def page_paused_at_def page_running_since_def
        state_paused_at_def state_running_def startTimer_def pauseTimer_def resumeTimer_def
        getState_def setState_def JSON_stringify_def)

text \<open>
  Start at 1000 and pause at 61000: the stored state is paused, with \<^verbatim>\<open>pausedAt\<close> set.
  The resume at 361000 then clears both fields and moves the start time to 301000.
\<close>

theorem pausedAt_iff_isPaused_witness:
  "session page_stopped [Start 1000 (Some 4), Pause 61000] = Inr (page_paused_at 61000)
   \<and> getState (localStorage (page_paused_at 61000)) ''pasta'' = Inr (Some (state_paused_at 61000))
   \<and> pausedAt_is_set (state_paused_at 61000)
   \<and> isPaused (state_paused_at 61000) = Val True
   \<and> resumeTimer (page_paused_at 61000) 361000 = Inr (page_running_since 301000)
   \<and> getState (localStorage (page_running_since 301000)) ''pasta''
       = Inr (Some (state_paused_at 61000\<lparr>startTime := Val 301000, isPaused := Val False,
                                              pausedAt := Null\<rparr>))"
proof -
  have h: "currentRecipeSlug page_stopped = Some ''pasta''" "''pasta'' \<noteq> []"
    "getState (localStorage page_stopped) ''pasta'' = Inr None"
    by (simp_all add: page_stopped_def getState_def)
  have g: "getState (localStorage (page_paused_at 61000)) ''pasta'' = Inr (Some (state_paused_at 61000))"
    by (simp add: page_paused_at_def getState_def)
  have i: "isPaused (state_paused_at 61000) = Val True"
    "startTime (state_paused_at 61000) = Val 1000" "pausedAt (state_paused_at 61000) = Val 61000"
    by (simp_all add: state_paused_at_def)
  from pausedAt_iff_isPaused [OF h, of "[Start 1000 (Some 4), Pause 61000]"]
    session_example(1) g
  have "(pausedAt_is_set (state_paused_at 61000) \<longleftrightarrow> isPaused (state_paused_at 61000) = Val True)
    \<and> (\<exists>p'. resumeTimer (page_paused_at 61000) 361000 = Inr p'
          \<and> getState (localStorage p') ''pasta''
              = Inr (Some (state_paused_at 61000\<lparr>startTime := stringified_number
                             (number_plus (ToNumber (startTime (state_paused_at 61000)))
                                (number_minus (Some 361000) (ToNumber (pausedAt (state_paused_at 61000))))),
                           isPaused := Val False, pausedAt := Null\<rparr>)))"
    using i(1) by auto
  with session_example(1,2) g i show ?thesis by auto
qed

section \<open>Properties of the display tick\<close>

lemma smallest_positive_remaining_unique:
  assumes "smallest_positive_remaining cs e i" and "smallest_positive_remaining cs e k"
  shows "i = k"
proof -
  define a where "a = remainingMinutes (cs ! i) e"
  define b where "b = remainingMinutes (cs ! k) e"
  from assms have "i < length cs" "k < length cs" "0 < a" "0 < b"
    by (simp_all add: smallest_positive_remaining_def a_def b_def)
  from assms(1) \<open>k < length cs\<close> \<open>0 < b\<close>
  have ik: "a < b \<or> (a = b \<and> i \<le> k)"
    unfolding smallest_positive_remaining_def a_def b_def by blast
  from assms(2) \<open>i < length cs\<close> \<open>0 < a\<close>
  have ki: "b < a \<or> (b = a \<and> k \<le> i)"
    unfolding smallest_positive_remaining_def a_def b_def by blast
  from ik ki show ?thesis by linarith
qed

subsection \<open>The copy with step tickets\<close>

text \<open>The loop strips the two marks from every ticket.\<close>

lemma forEach_tickets:
  "fst (highlightNextStep_ticket_forEach e cs i n m) = map strip_marks cs"
  by (induction cs arbitrary: i n m) (simp_all add: strip_marks_def Let_def case_prod_beta)

text \<open>
  What the loop leaves in \<^verbatim>\<open>nextStep\<close> and \<^verbatim>\<open>minRemaining\<close>: their initial values, if
  no ticket has a positive remaining time below the initial minimum; otherwise the first
  ticket with the smallest positive remaining time, and that time.
\<close>

lemma forEach_scan:
  "snd (highlightNextStep_ticket_forEach e cs i n m) = (n', m') \<Longrightarrow>
     ((n', m') = (n, m)
        \<and> (\<forall>j < length cs. \<not> (0 < remainingMinutes (cs ! j) e
                                  \<and> below_minimum (remainingMinutes (cs ! j) e) m)))
     \<or> (\<exists>k < length cs. n' = Some (i + k) \<and> m' = Some (remainingMinutes (cs ! k) e)
           \<and> 0 < remainingMinutes (cs ! k) e \<and> below_minimum (remainingMinutes (cs ! k) e) m
           \<and> (\<forall>j < length cs. 0 < remainingMinutes (cs ! j) e \<longrightarrow>
                 remainingMinutes (cs ! k) e < remainingMinutes (cs ! j) e
                 \<or> (remainingMinutes (cs ! k) e = remainingMinutes (cs ! j) e \<and> k \<le> j)))"
proof (induction cs arbitrary: i n m)
  case Nil
  then show ?case by simp
next
  case (Cons c cs)
  let ?r = "remainingMinutes c e"
  let ?R = "\<lambda>j. remainingMinutes (cs ! j) e"
  let ?R' = "\<lambda>j. remainingMinutes ((c # cs) ! j) e"
  show ?case
  proof (cases "0 < ?r \<and> below_minimum ?r m")
    case True
    then have snd: "snd (highlightNextStep_ticket_forEach e cs (Suc i) (Some i) (Some ?r)) = (n', m')"
      using Cons.prems by (simp add: remainingMinutes_def Let_def split: prod.splits)
    from Cons.IH [OF snd] show ?thesis
    proof
      assume a: "(n', m') = (Some i, Some ?r) \<and>
        (\<forall>j<length cs. \<not> (0 < ?R j \<and> below_minimum (?R j) (Some ?r)))"
      have "\<forall>j < length (c # cs). 0 < ?R' j \<longrightarrow> ?r < ?R' j \<or> (?r = ?R' j \<and> 0 \<le> j)"
      proof (intro allI impI)
        fix j assume "j < length (c # cs)" and "0 < ?R' j"
        then show "?r < ?R' j \<or> (?r = ?R' j \<and> 0 \<le> j)"
          using a by (cases j) (auto simp: not_less)
      qed
      then show ?thesis using a True by (intro disjI2 exI [of _ 0]) simp
    next
      assume "\<exists>k<length cs. n' = Some (Suc i + k) \<and> m' = Some (?R k)
           \<and> 0 < ?R k \<and> below_minimum (?R k) (Some ?r)
           \<and> (\<forall>j < length cs. 0 < ?R j \<longrightarrow> ?R k < ?R j \<or> (?R k = ?R j \<and> k \<le> j))"
      then obtain k where k: "k < length cs" "n' = Some (Suc i + k)" "m' = Some (?R k)"
           "0 < ?R k" "?R k < ?r"
           "\<forall>j < length cs. 0 < ?R j \<longrightarrow> ?R k < ?R j \<or> (?R k = ?R j \<and> k \<le> j)"
        by auto
      have below: "below_minimum (?R k) m"
        using True k(5) by (cases m) auto
      have "\<forall>j < length (c # cs). 0 < ?R' j \<longrightarrow> ?R k < ?R' j \<or> (?R k = ?R' j \<and> Suc k \<le> j)"
      proof (intro allI impI)
        fix j assume "j < length (c # cs)" and "0 < ?R' j"
        then show "?R k < ?R' j \<or> (?R k = ?R' j \<and> Suc k \<le> j)"
          using k(5,6) by (cases j) auto
      qed
      then show ?thesis using k below by (intro disjI2 exI [of _ "Suc k"]) simp
    qed
  next
    case False
    then have snd: "snd (highlightNextStep_ticket_forEach e cs (Suc i) n m) = (n', m')"
      using Cons.prems by (auto simp: remainingMinutes_def Let_def split: prod.splits)
    from Cons.IH [OF snd] show ?thesis
    proof
      assume a: "(n', m') = (n, m) \<and>
        (\<forall>j<length cs. \<not> (0 < ?R j \<and> below_minimum (?R j) m))"
      have "\<forall>j < length (c # cs). \<not> (0 < ?R' j \<and> below_minimum (?R' j) m)"
      proof (intro allI impI)
        fix j assume "j < length (c # cs)"
        then show "\<not> (0 < ?R' j \<and> below_minimum (?R' j) m)"
          using a False by (cases j) auto
      qed
      then show ?thesis using a by blast
    next
      assume "\<exists>k<length cs. n' = Some (Suc i + k) \<and> m' = Some (?R k)
           \<and> 0 < ?R k \<and> below_minimum (?R k) m
           \<and> (\<forall>j < length cs. 0 < ?R j \<longrightarrow> ?R k < ?R j \<or> (?R k = ?R j \<and> k \<le> j))"
      then obtain k where k: "k < length cs" "n' = Some (Suc i + k)" "m' = Some (?R k)"
           "0 < ?R k" "below_minimum (?R k) m"
           "\<forall>j < length cs. 0 < ?R j \<longrightarrow> ?R k < ?R j \<or> (?R k = ?R j \<and> k \<le> j)"
        by auto
      have c: "0 < ?r \<Longrightarrow> ?R k < ?r"
        using False k(5) by (cases m) auto
      have "\<forall>j < length (c # cs). 0 < ?R' j \<longrightarrow> ?R k < ?R' j \<or> (?R k = ?R' j \<and> Suc k \<le> j)"
      proof (intro allI impI)
        fix j assume "j < length (c # cs)" and "0 < ?R' j"
        then show "?R k < ?R' j \<or> (?R k = ?R' j \<and> Suc k \<le> j)"
          using k(6) c by (cases j) auto
      qed
      then show ?thesis using k by (intro disjI2 exI [of _ "Suc k"]) simp
    qed
  qed
qed

lemma forEach_result:
  "highlightNextStep_ticket_forEach e cs 0 None None = (map strip_marks cs, None, None)
     \<and> (\<forall>j < length cs. remainingMinutes (cs ! j) e \<le> 0)
   \<or> (\<exists>k. smallest_positive_remaining cs e k
         \<and> highlightNextStep_ticket_forEach e cs 0 None None
             = (map strip_marks cs, Some k, Some (remainingMinutes (cs ! k) e)))"
proof -
  obtain cs' n' m' where r: "highlightNextStep_ticket_forEach e cs 0 None None = (cs', n', m')"
    by (cases "highlightNextStep_ticket_forEach e cs 0 None None") auto
  then have cs': "cs' = map strip_marks cs"
    using forEach_tickets [of e cs 0 None None] by simp
  from r have "snd (highlightNextStep_ticket_forEach e cs 0 None None) = (n', m')" by simp
  from forEach_scan [OF this] show ?thesis
    using r cs' by (auto simp: smallest_positive_remaining_def not_less)
qed

lemma highlightNextStep_ticket_none:
  assumes "\<forall>j < length cs. remainingMinutes (cs ! j) e \<le> 0"
  shows "highlightNextStep_ticket e cs = map strip_marks cs"
proof -
  have "\<not> smallest_positive_remaining cs e k" for k
    using assms by (auto simp: smallest_positive_remaining_def not_less)
  with forEach_result [of e cs] show ?thesis
    by (auto simp: highlightNextStep_ticket_def)
qed

lemma highlightNextStep_ticket_some:
  assumes "smallest_positive_remaining cs e i"
  shows "highlightNextStep_ticket e cs
           = (map strip_marks cs)[i := mark_next (remainingMinutes (cs ! i) e) (strip_marks (cs ! i))]"
proof -
  from assms have pos: "i < length cs" "0 < remainingMinutes (cs ! i) e"
    by (simp_all add: smallest_positive_remaining_def)
  then have "\<not> (\<forall>j < length cs. remainingMinutes (cs ! j) e \<le> 0)"
    by (auto simp: not_le)
  with forEach_result [of e cs] obtain k
    where k: "smallest_positive_remaining cs e k"
      and r: "highlightNextStep_ticket_forEach e cs 0 None None
                = (map strip_marks cs, Some k, Some (remainingMinutes (cs ! k) e))"
    by blast
  from smallest_positive_remaining_unique [OF assms k] have "k = i" by simp
  with r pos show ?thesis
    by (simp add: highlightNextStep_ticket_def mark_next_def)
qed

lemma smallest_positive_remaining_exists:
  assumes "j < length cs" and "0 < remainingMinutes (cs ! j) e"
  shows "\<exists>i. smallest_positive_remaining cs e i"
  using forEach_result [of e cs] assms by (auto simp: not_le)

lemma marks_strip:
  "''step-ticket--next'' \<notin> classList (strip_marks c)"
  "''step-ticket--firing'' \<notin> classList (strip_marks c)"
  by (simp_all add: strip_marks_def)

lemma marks_mark_next:
  "''step-ticket--next'' \<in> classList (mark_next r c)"
  "''step-ticket--firing'' \<in> classList (mark_next r (strip_marks c)) \<longleftrightarrow> r < 1/2"
  by (simp_all add: mark_next_def strip_marks_def)

text \<open>The first loop of \<^verbatim>\<open>updateStepCountdowns\<close> leaves the start minutes alone.\<close>

lemma countdown_ticket_remaining:
  "remainingMinutes (updateStepCountdowns_ticket_each e' c) e = remainingMinutes c e"
  by (simp add: remainingMinutes_def updateStepCountdowns_ticket_each_def Let_def)

lemma countdown_tickets_smallest:
  "smallest_positive_remaining (map (updateStepCountdowns_ticket_each e') tickets) e i
     = smallest_positive_remaining tickets e i"
  by (auto simp: smallest_positive_remaining_def countdown_ticket_remaining)

text \<open>
  On every display tick of the copy with step tickets (a call of its
  \<^verbatim>\<open>updateStepCountdowns\<close> with the elapsed milliseconds), with
  \<open>remaining = startMinute - elapsedMinutes\<close>: the tickets stay the same in number; if
  ticket \<open>i\<close> has the smallest strictly positive remaining time of all tickets (the
  first such ticket, should several share that time), then it is the only ticket marked
  \<^verbatim>\<open>step-ticket--next\<close>, and it is marked \<^verbatim>\<open>step-ticket--firing\<close> exactly when its
  remaining time is under half a minute, no other ticket being marked so; such a ticket
  exists whenever some ticket has a positive remaining time; and if no ticket has one,
  no ticket carries either mark.
\<close>

lemma next_ticket_marked:
  "length (updateStepCountdowns_ticket elapsedMs tickets) = length tickets
   \<and> (\<forall>i. smallest_positive_remaining tickets (elapsedMs / 60000) i \<longrightarrow>
        (\<forall>j < length tickets.
           (''step-ticket--next'' \<in> classList (updateStepCountdowns_ticket elapsedMs tickets ! j)
              \<longleftrightarrow> j = i)
           \<and> (''step-ticket--firing'' \<in> classList (updateStepCountdowns_ticket elapsedMs tickets ! j)
                \<longleftrightarrow> j = i \<and> remainingMinutes (tickets ! i) (elapsedMs / 60000) < 1/2)))
   \<and> ((\<exists>j < length tickets. 0 < remainingMinutes (tickets ! j) (elapsedMs / 60000))
        \<longrightarrow> (\<exists>i. smallest_positive_remaining tickets (elapsedMs / 60000) i))
   \<and> ((\<forall>j < length tickets. remainingMinutes (tickets ! j) (elapsedMs / 60000) \<le> 0) \<longrightarrow>
        (\<forall>j < length tickets.
           ''step-ticket--next'' \<notin> classList (updateStepCountdowns_ticket elapsedMs tickets ! j)
           \<and> ''step-ticket--firing'' \<notin> classList (updateStepCountdowns_ticket elapsedMs tickets ! j)))"
proof -
  let ?e = "elapsedMs / 60000"
  let ?cs = "map (updateStepCountdowns_ticket_each ?e) tickets"
  let ?out = "updateStepCountdowns_ticket elapsedMs tickets"
  have upd: "?out = highlightNextStep_ticket ?e ?cs"
    by (simp add: updateStepCountdowns_ticket_def Let_def)
  have len: "length ?out = length tickets"
  proof (cases "\<forall>j < length ?cs. remainingMinutes (?cs ! j) ?e \<le> 0")
    case True
    from highlightNextStep_ticket_none [OF True] show ?thesis by (simp add: upd)
  next
    case False
    then obtain i where "smallest_positive_remaining ?cs ?e i"
      using smallest_positive_remaining_exists [of _ ?cs ?e] by (auto simp: not_le)
    from highlightNextStep_ticket_some [OF this] show ?thesis by (simp add: upd)
  qed
  have marked: "(''step-ticket--next'' \<in> classList (?out ! j) \<longleftrightarrow> j = i)
           \<and> (''step-ticket--firing'' \<in> classList (?out ! j)
                \<longleftrightarrow> j = i \<and> remainingMinutes (tickets ! i) ?e < 1/2)"
    if i: "smallest_positive_remaining tickets ?e i" and j: "j < length tickets" for i j
  proof -
    from i have "smallest_positive_remaining ?cs ?e i"
      by (simp add: countdown_tickets_smallest)
    from highlightNextStep_ticket_some [OF this]
    have eq: "?out = (map strip_marks ?cs)
                [i := mark_next (remainingMinutes (?cs ! i) ?e) (strip_marks (?cs ! i))]"
      by (simp add: upd)
    from i have il: "i < length tickets" by (simp add: smallest_positive_remaining_def)
    show ?thesis
    proof (cases "j = i")
      case True
      with il show ?thesis
        by (simp add: eq marks_mark_next countdown_ticket_remaining del: One_nat_def)
    next
      case False
      with j show ?thesis by (simp add: eq marks_strip)
    qed
  qed
  have exists: "\<exists>i. smallest_positive_remaining tickets ?e i"
    if "\<exists>j < length tickets. 0 < remainingMinutes (tickets ! j) ?e"
    using that smallest_positive_remaining_exists by blast
  have none: "''step-ticket--next'' \<notin> classList (?out ! j)
           \<and> ''step-ticket--firing'' \<notin> classList (?out ! j)"
    if all: "\<forall>j < length tickets. remainingMinutes (tickets ! j) ?e \<le> 0"
      and j: "j < length tickets" for j
  proof -
    from all have "\<forall>j < length ?cs. remainingMinutes (?cs ! j) ?e \<le> 0"
      by (simp add: countdown_ticket_remaining)
    from highlightNextStep_ticket_none [OF this] j show ?thesis
      by (simp add: upd marks_strip)
  qed
  from len marked exists none show ?thesis by blast
qed

lemma four_tickets_remaining:
  "length four_tickets = 4"
  "remainingMinutes (four_tickets ! 0) e = 0 - e"
  "remainingMinutes (four_tickets ! Suc 0) e = 10 - e"
  "remainingMinutes (four_tickets ! 2) e = 10 - e"
  "remainingMinutes (four_tickets ! 3) e = 20 - e"
  by (simp_all add: four_tickets_def ticket_at_def remainingMinutes_def)

lemma less_four: "j < (4::nat) \<longleftrightarrow> j = 0 \<or> j = Suc 0 \<or> j = 2 \<or> j = 3"
  by auto

subsection \<open>The copy \<^verbatim>\<open>src/js/timer.js\<close>\<close>

text \<open>
  The loop of \<^verbatim>\<open>highlightNextStep\<close> in \<^verbatim>\<open>src/js/timer.js\<close> finds the same element as
  the loop of the other copy, and strips the border from every card.
\<close>

lemma card_forEach_snd:
  "snd (highlightNextStep_forEach e cs i n m) = snd (highlightNextStep_ticket_forEach e cs i n m)"
  by (induction cs arbitrary: i n m) (simp_all add: Let_def case_prod_beta)

lemma card_forEach_fst:
  "fst (highlightNextStep_forEach e cs i n m) = map strip_border cs"
  by (induction cs arbitrary: i n m) (simp_all add: strip_border_def Let_def case_prod_beta)

lemma card_forEach_result:
  "highlightNextStep_forEach e cs 0 None None = (map strip_border cs, None, None)
     \<and> (\<forall>j < length cs. remainingMinutes (cs ! j) e \<le> 0)
   \<or> (\<exists>k. smallest_positive_remaining cs e k
         \<and> highlightNextStep_forEach e cs 0 None None
             = (map strip_border cs, Some k, Some (remainingMinutes (cs ! k) e)))"
  using forEach_result [of e cs] card_forEach_fst [of e cs 0 None None]
    card_forEach_snd [of e cs 0 None None]
  by (auto simp: prod_eq_iff)

lemma highlightNextStep_no_border:
  assumes "\<forall>j < length cs. remainingMinutes (cs ! j) e \<le> 0"
  shows "highlightNextStep e cs = map strip_border cs"
proof -
  have "\<not> smallest_positive_remaining cs e k" for k
    using assms by (auto simp: smallest_positive_remaining_def not_less)
  with card_forEach_result [of e cs] show ?thesis
    by (auto simp: highlightNextStep_def)
qed

lemma highlightNextStep_border:
  assumes "smallest_positive_remaining cs e i"
  shows "highlightNextStep e cs = (map strip_border cs)[i := mark_border (strip_border (cs ! i))]"
proof -
  from assms have pos: "i < length cs" "0 < remainingMinutes (cs ! i) e"
    by (simp_all add: smallest_positive_remaining_def)
  then have "\<not> (\<forall>j < length cs. remainingMinutes (cs ! j) e \<le> 0)"
    by (auto simp: not_le)
  with card_forEach_result [of e cs] obtain k
    where k: "smallest_positive_remaining cs e k"
      and r: "highlightNextStep_forEach e cs 0 None None
                = (map strip_border cs, Some k, Some (remainingMinutes (cs ! k) e))"
    by blast
  from smallest_positive_remaining_unique [OF assms k] have "k = i" by simp
  with r pos show ?thesis
    by (simp add: highlightNextStep_def mark_border_def)
qed

lemma border_strip:
  "''border-2'' \<notin> classList (strip_border c)"
  "''border-accent'' \<notin> classList (strip_border c)"
  by (simp_all add: strip_border_def)

lemma border_mark:
  "''border-2'' \<in> classList (mark_border c)"
  "''border-accent'' \<in> classList (mark_border c)"
  by (simp_all add: mark_border_def)

lemma other_classes_border:
  assumes "x \<notin> card_classes"
  shows "x \<in> classList (strip_border c) \<longleftrightarrow> x \<in> classList c"
    and "x \<in> classList (mark_border c) \<longleftrightarrow> x \<in> classList c"
  using assms by (auto simp: strip_border_def mark_border_def card_classes_def)

text \<open>
  The first loop of \<^verbatim>\<open>updateStepCountdowns\<close> leaves the start minutes alone and touches
  no class but \<^verbatim>\<open>hidden\<close> and \<^verbatim>\<open>opacity-60\<close>.
\<close>

lemma countdown_each_remaining:
  "remainingMinutes (updateStepCountdowns_each e' c) e = remainingMinutes c e"
  by (simp add: remainingMinutes_def updateStepCountdowns_each_def Let_def)

lemma countdown_each_smallest:
  "smallest_positive_remaining (map (updateStepCountdowns_each e') cards) e i
     = smallest_positive_remaining cards e i"
  by (auto simp: smallest_positive_remaining_def countdown_each_remaining)

lemma countdown_each_classes:
  assumes "x \<notin> card_classes"
  shows "x \<in> classList (updateStepCountdowns_each e c) \<longleftrightarrow> x \<in> classList c"
  using assms by (auto simp: updateStepCountdowns_each_def Let_def card_classes_def)

subsection \<open>The next step and the firing mark\<close>

text \<open>
  Claim C6 says that the next step, when less than 30 seconds remain, is marked as
  firing too. In \<^verbatim>\<open>src/js/timer.js\<close> it is not: of the four step cards at 9 minutes 45
  seconds, the first card of minute 10 has a quarter of a minute left and is the next
  one; after the tick it has its own class and the two border classes, and no other.
\<close>

theorem next_card_not_firing:
  "remainingMinutes (four_cards ! 1) (585000 / 60000) = 1/4
   \<and> classList (updateStepCountdowns 585000 four_cards ! 1)
       = {''step-card'', ''border-2'', ''border-accent''}
   \<and> ''step-ticket--firing'' \<notin> classList (updateStepCountdowns 585000 four_cards ! 1)"
  by (auto simp: remainingMinutes_def four_cards_def card_at_def updateStepCountdowns_def
        updateStepCountdowns_each_def highlightNextStep_def Let_def)

text \<open>
  Claim C6, amended. On every display tick (a call of \<^verbatim>\<open>updateStepCountdowns\<close> with the
  elapsed milliseconds), with \<open>remaining = startMinute - elapsedMinutes\<close>, the step
  elements stay the same in number, and the single element with the smallest strictly
  positive remaining time (the first such element, should several share that time; there
  is one whenever some element has a positive remaining time) is marked as the next
  step, and no other element is; if no element has a positive remaining time, none is
  marked. In \<^verbatim>\<open>src/js/timer.js\<close> the mark is the pair of classes \<^verbatim>\<open>border-2\<close> and
  \<^verbatim>\<open>border-accent\<close>, and there is no firing mark: the tick changes no class of a step
  card other than \<^verbatim>\<open>border-2\<close>, \<^verbatim>\<open>border-accent\<close>, \<^verbatim>\<open>hidden\<close> and \<^verbatim>\<open>opacity-60\<close>,
  whatever time remains. In the copy with step tickets the mark is
  \<^verbatim>\<open>step-ticket--next\<close>, and the next ticket, and no other, is marked
  \<^verbatim>\<open>step-ticket--firing\<close> as well exactly when its remaining time is under half a minute.
\<close>

theorem next_step_highlighted:
  "length (updateStepCountdowns elapsedMs els) = length els
   \<and> length (updateStepCountdowns_ticket elapsedMs els) = length els
   \<and> (\<forall>i. smallest_positive_remaining els (elapsedMs / 60000) i \<longrightarrow>
        (\<forall>j < length els.
           (''border-2'' \<in> classList (updateStepCountdowns elapsedMs els ! j) \<longleftrightarrow> j = i)
           \<and> (''border-accent'' \<in> classList (updateStepCountdowns elapsedMs els ! j) \<longleftrightarrow> j = i)
           \<and> (''step-ticket--next'' \<in> classList (updateStepCountdowns_ticket elapsedMs els ! j)
                \<longleftrightarrow> j = i)
           \<and> (''step-ticket--firing'' \<in> classList (updateStepCountdowns_ticket elapsedMs els ! j)
                \<longleftrightarrow> j = i \<and> remainingMinutes (els ! i) (elapsedMs / 60000) < 1/2)))
   \<and> ((\<exists>j < length els. 0 < remainingMinutes (els ! j) (elapsedMs / 60000))
        \<longrightarrow> (\<exists>i. smallest_positive_remaining els (elapsedMs / 60000) i))
   \<and> ((\<forall>j < length els. remainingMinutes (els ! j) (elapsedMs / 60000) \<le> 0) \<longrightarrow>
        (\<forall>j < length els.
           ''border-2'' \<notin> classList (updateStepCountdowns elapsedMs els ! j)
           \<and> ''border-accent'' \<notin> classList (updateStepCountdowns elapsedMs els ! j)
           \<and> ''step-ticket--next'' \<notin> classList (updateStepCountdowns_ticket elapsedMs els ! j)
           \<and> ''step-ticket--firing'' \<notin> classList (updateStepCountdowns_ticket elapsedMs els ! j)))
   \<and> (\<forall>j < length els. \<forall>c. c \<notin> card_classes \<longrightarrow>
          (c \<in> classList (updateStepCountdowns elapsedMs els ! j) \<longleftrightarrow> c \<in> classList (els ! j)))"
proof -
  let ?e = "elapsedMs / 60000"
  let ?cs = "map (updateStepCountdowns_each ?e) els"
  let ?out = "updateStepCountdowns elapsedMs els"
  note ticket = next_ticket_marked [of elapsedMs els]
  have upd: "?out = highlightNextStep ?e ?cs"
    by (simp add: updateStepCountdowns_def Let_def)
  have none_eq: "?out = map strip_border ?cs"
    if "\<forall>j < length els. remainingMinutes (els ! j) ?e \<le> 0"
  proof -
    from that have "\<forall>j < length ?cs. remainingMinutes (?cs ! j) ?e \<le> 0"
      by (simp add: countdown_each_remaining)
    from highlightNextStep_no_border [OF this] show ?thesis by (simp add: upd)
  qed
  have some_eq: "?out = (map strip_border ?cs)[i := mark_border (strip_border (?cs ! i))]"
    if "smallest_positive_remaining els ?e i" for i
  proof -
    from that have "smallest_positive_remaining ?cs ?e i"
      by (simp add: countdown_each_smallest)
    from highlightNextStep_border [OF this] show ?thesis by (simp add: upd)
  qed
  have cases: "(\<forall>j < length els. remainingMinutes (els ! j) ?e \<le> 0)
                 \<or> (\<exists>i. smallest_positive_remaining els ?e i)"
    using smallest_positive_remaining_exists [of _ els ?e] by (meson not_le)
  have len: "length ?out = length els"
    using cases none_eq some_eq by (elim disjE exE) simp_all
  have marked: "(''border-2'' \<in> classList (?out ! j) \<longleftrightarrow> j = i)
           \<and> (''border-accent'' \<in> classList (?out ! j) \<longleftrightarrow> j = i)"
    if i: "smallest_positive_remaining els ?e i" and j: "j < length els" for i j
  proof (cases "j = i")
    case True
    with j show ?thesis by (simp add: some_eq [OF i] border_mark)
  next
    case False
    with j show ?thesis by (simp add: some_eq [OF i] border_strip)
  qed
  have none: "''border-2'' \<notin> classList (?out ! j) \<and> ''border-accent'' \<notin> classList (?out ! j)"
    if all: "\<forall>j < length els. remainingMinutes (els ! j) ?e \<le> 0" and j: "j < length els" for j
    using j by (simp add: none_eq [OF all] border_strip)
  have frame: "x \<in> classList (?out ! j) \<longleftrightarrow> x \<in> classList (els ! j)"
    if j: "j < length els" and x: "x \<notin> card_classes" for j x
    using cases
  proof (elim disjE exE)
    assume "\<forall>j < length els. remainingMinutes (els ! j) ?e \<le> 0"
    from none_eq [OF this] j show ?thesis
      by (simp add: other_classes_border [OF x] countdown_each_classes [OF x])
  next
    fix i assume i: "smallest_positive_remaining els ?e i"
    show ?thesis
    proof (cases "j = i")
      case True
      with j show ?thesis
        by (simp add: some_eq [OF i] other_classes_border [OF x] countdown_each_classes [OF x])
    next
      case False
      with j show ?thesis
        by (simp add: some_eq [OF i] other_classes_border [OF x] countdown_each_classes [OF x])
    qed
  qed
  from ticket len marked none frame show ?thesis by blast
qed

lemma four_cards_remaining:
  "length four_cards = 4"
  "remainingMinutes (four_cards ! 0) e = 0 - e"
  "remainingMinutes (four_cards ! Suc 0) e = 10 - e"
  "remainingMinutes (four_cards ! 2) e = 10 - e"
  "remainingMinutes (four_cards ! 3) e = 20 - e"
  "classList (four_cards ! Suc 0) = {''step-card''}"
  by (simp_all add: four_cards_def card_at_def remainingMinutes_def)

text \<open>
  The four step cards at 9 minutes 45 seconds: the first card of minute 10 gets the
  border, the second card of minute 10 does not, and the first keeps its class
  \<^verbatim>\<open>step-card\<close> and gets no firing class; at 25 minutes no card has the border. The four
  tickets: the first ticket of minute 10 is next and firing at 9 minutes 45 seconds, and
  next without firing at 5 minutes.
\<close>

theorem next_step_highlighted_witness:
  "smallest_positive_remaining four_cards (585000 / 60000) 1
   \<and> ''border-2'' \<in> classList (updateStepCountdowns 585000 four_cards ! 1)
   \<and> ''border-accent'' \<in> classList (updateStepCountdowns 585000 four_cards ! 1)
   \<and> ''border-accent'' \<notin> classList (updateStepCountdowns 585000 four_cards ! 2)
   \<and> ''step-card'' \<in> classList (updateStepCountdowns 585000 four_cards ! 1)
   \<and> ''step-ticket--firing'' \<notin> classList (updateStepCountdowns 585000 four_cards ! 1)
   \<and> ''border-accent'' \<notin> classList (updateStepCountdowns 1500000 four_cards ! 3)
   \<and> smallest_positive_remaining four_tickets (585000 / 60000) 1
   \<and> ''step-ticket--next'' \<in> classList (updateStepCountdowns_ticket 585000 four_tickets ! 1)
   \<and> ''step-ticket--firing'' \<in> classList (updateStepCountdowns_ticket 585000 four_tickets ! 1)
   \<and> ''step-ticket--next'' \<notin> classList (updateStepCountdowns_ticket 585000 four_tickets ! 2)
   \<and> ''step-ticket--firing'' \<notin> classList (updateStepCountdowns_ticket 300000 four_tickets ! 1)"
proof -
  have a: "smallest_positive_remaining four_cards (585000 / 60000) 1"
    by (auto simp: smallest_positive_remaining_def four_cards_remaining less_four)
  have c: "\<forall>j < length four_cards. remainingMinutes (four_cards ! j) (1500000 / 60000) \<le> 0"
    by (auto simp: four_cards_remaining less_four)
  have l: "(1::nat) < length four_cards" "(2::nat) < length four_cards"
    "(3::nat) < length four_cards"
    by (simp_all add: four_cards_remaining)
  have n: "(2::nat) \<noteq> 1" by simp
  have x: "''step-card'' \<notin> card_classes" "''step-ticket--firing'' \<notin> card_classes"
    "''step-card'' \<in> classList (four_cards ! 1)"
    "''step-ticket--firing'' \<notin> classList (four_cards ! 1)"
    by (simp_all add: card_classes_def four_cards_remaining)
  have ta: "smallest_positive_remaining four_tickets (585000 / 60000) 1"
    by (auto simp: smallest_positive_remaining_def four_tickets_remaining less_four)
  have tb: "smallest_positive_remaining four_tickets (300000 / 60000) 1"
    by (auto simp: smallest_positive_remaining_def four_tickets_remaining less_four)
  have r: "remainingMinutes (four_tickets ! 1) (585000 / 60000) < 1/2"
    "\<not> remainingMinutes (four_tickets ! 1) (300000 / 60000) < 1/2"
    by (simp_all add: four_tickets_remaining)
  have tl: "(1::nat) < length four_tickets" "(2::nat) < length four_tickets"
    by (simp_all add: four_tickets_remaining)
  from next_step_highlighted [of 585000 four_cards] a l n x
  have "''border-2'' \<in> classList (updateStepCountdowns 585000 four_cards ! 1)
    \<and> ''border-accent'' \<in> classList (updateStepCountdowns 585000 four_cards ! 1)
    \<and> ''border-accent'' \<notin> classList (updateStepCountdowns 585000 four_cards ! 2)
    \<and> ''step-card'' \<in> classList (updateStepCountdowns 585000 four_cards ! 1)
    \<and> ''step-ticket--firing'' \<notin> classList (updateStepCountdowns 585000 four_cards ! 1)"
    by blast
  moreover from next_step_highlighted [of 1500000 four_cards] c l
  have "''border-accent'' \<notin> classList (updateStepCountdowns 1500000 four_cards ! 3)"
    by blast
  moreover from next_step_highlighted [of 585000 four_tickets] ta tl r n
  have "''step-ticket--next'' \<in> classList (updateStepCountdowns_ticket 585000 four_tickets ! 1)
    \<and> ''step-ticket--firing'' \<in> classList (updateStepCountdowns_ticket 585000 four_tickets ! 1)
    \<and> ''step-ticket--next'' \<notin> classList (updateStepCountdowns_ticket 585000 four_tickets ! 2)"
    by blast
  moreover from next_step_highlighted [of 300000 four_tickets] tb tl r
  have "''step-ticket--firing'' \<notin> classList (updateStepCountdowns_ticket 300000 four_tickets ! 1)"
    by blast
  ultimately show ?thesis using a ta by simp
qed

end
